theory Spec2Isabelle
  imports Complex_Main
begin

section \<open>Data model of the Google Ad Placement plugin\<close>

text \<open>
  The module \<^verbatim>\<open>src/mod.js\<close> exports one function, \<^verbatim>\<open>googleAdPlacementPlugin\<close>, whose
  local variables are the state of one plugin instance. The closures it hands to the
  vendor SDK and to the host are run by the browser's event loop, so the embedding is a
  state record together with one function per block of code that runs without
  suspension (from one \<^verbatim>\<open>await\<close> to the next), and an event type that names who runs it.

  Clock readings (\<^verbatim>\<open>performance.now()\<close>) and delays are milliseconds with fractions,
  a \<open>rat\<close>; sums and differences of readings are exact.
\<close>

datatype AdBreakType = Preroll | Start | Pause | Next | Browse | Reward

datatype BreakFormat = Interstitial | RewardFormat

text \<open>
  \<^verbatim>\<open>breakStatus\<close> is compared with string literals and the translation has a default
  branch, so it is a string here: the nine documented values and every other one.
\<close>

record PlacementInfo =
  breakType :: AdBreakType
  breakName :: string
  breakFormat :: BreakFormat
  breakStatus :: string

record ShowFullScreenAdResult =
  didShowAd :: bool
  errorReason :: "string option"

record InitializeContext =
  useTestAds :: bool

datatype Error =
    AlreadyInitialized  \<comment> \<open>"Google Ad Placement plugin is being initialized more than once"\<close>
  | NotInitialized      \<comment> \<open>"Plugin is not initialized"\<close>

text \<open>
  An element of \<^verbatim>\<open>window.adsbygoogle\<close>. The objects the plugin pushes carry closures;
  the \<^verbatim>\<open>adBreakDone\<close> closure of an ad break resolves the promise created around the
  push, named here by its index in the promise store. Elements that were in the queue
  before the plugin was constructed are opaque.
\<close>

datatype QueueItem =
    AdBreakOptions AdBreakType nat
  | AdConfigOptions string
  | ForeignItem nat

record ScriptTag =
  tag_async :: bool
  tag_adClient :: string
  tag_adFrequencyHint :: "string option"
  tag_adbreakTest :: "string option"
  tag_crossOrigin :: string
  tag_src :: string

text \<open>Calls that leave the module, in the order they are made.\<close>

datatype Effect =
    SetNeedsPause bool
  | SetNeedsMute bool
  | SetCanShowRewardedAd bool
  | CreateElement string
  | AppendChild ScriptTag
  | Push QueueItem
  | ShowAdFn nat          \<comment> \<open>the vendor's \<^verbatim>\<open>showAdFn\<close> of the request at that queue index\<close>
  | SetTimeout rat

text \<open>Where \<^verbatim>\<open>initialize\<close> and \<^verbatim>\<open>rewardedLoop\<close> are suspended.\<close>

datatype InitState = InitIdle | InitAwaitingScript | InitResolved | InitRejected

datatype LoopState =
    LoopNotStarted
  | LoopAwaiting nat     \<comment> \<open>\<^verbatim>\<open>await promise\<close> on the promise with that index (line 151)\<close>
  | LoopSleeping rat     \<comment> \<open>\<^verbatim>\<open>await\<close> on the timer set with that delay (line 169)\<close>

record PluginState =
  publisherId :: string
  adFrequencyHint :: "string option"
  initializeCalled :: bool
  initializeContext :: "InitializeContext option"
  showRewardedAdFn :: "nat option"
  resolveRewardedAdFn :: "nat option"
  lastCallTime :: rat
  initState :: InitState
  loopState :: LoopState
  adsbygoogle :: "QueueItem list"
  documentHead :: "ScriptTag list"
  promises :: "PlacementInfo option list"
  now :: rat
  needsPause :: "bool option"
  needsMute :: "bool option"
  canShowRewardedAd :: "bool option"
  effects :: "Effect list"

text \<open>
  \<open>showRewardedAdFn = Some i\<close>: the closure of lines 133 to 141 that wraps the
  \<^verbatim>\<open>showAdFn\<close> the vendor passed to \<^verbatim>\<open>beforeReward\<close> of the request at queue index \<open>i\<close>.
  \<open>resolveRewardedAdFn = Some p\<close>: the \<^verbatim>\<open>resolve\<close> function of promise \<open>p\<close>.
  \<open>canShowRewardedAd\<close> is the host's flag: the value last passed to
  \<^verbatim>\<open>setCanShowRewardedAd\<close>, \<open>None\<close> before the first call.
\<close>

record Page =
  page_adsbygoogle :: "nat list option"
  page_head :: "ScriptTag list"
  page_now :: rat

datatype ShowOutcome =
    Fulfilled ShowFullScreenAdResult
  | Awaiting nat

section \<open>The host context and the page\<close>

definition setNeedsPause :: "bool \<Rightarrow> PluginState \<Rightarrow> PluginState" where
  "setNeedsPause b s = s\<lparr>needsPause := Some b, effects := effects s @ [SetNeedsPause b]\<rparr>"

definition setNeedsMute :: "bool \<Rightarrow> PluginState \<Rightarrow> PluginState" where
  "setNeedsMute b s = s\<lparr>needsMute := Some b, effects := effects s @ [SetNeedsMute b]\<rparr>"

definition setCanShowRewardedAd :: "bool \<Rightarrow> PluginState \<Rightarrow> PluginState" where
  "setCanShowRewardedAd b s =
     s\<lparr>canShowRewardedAd := Some b, effects := effects s @ [SetCanShowRewardedAd b]\<rparr>"

definition createElement :: "string \<Rightarrow> PluginState \<Rightarrow> PluginState" where
  "createElement tag s = s\<lparr>effects := effects s @ [CreateElement tag]\<rparr>"

definition appendChild :: "ScriptTag \<Rightarrow> PluginState \<Rightarrow> PluginState" where
  "appendChild t s = s\<lparr>documentHead := documentHead s @ [t], effects := effects s @ [AppendChild t]\<rparr>"

text \<open>
  \<^verbatim>\<open>new Promise(...)\<close> allocates a pending promise; \<^verbatim>\<open>resolve(v)\<close> settles it once and is
  ignored afterwards.
\<close>

definition newPromise :: "PluginState \<Rightarrow> nat \<times> PluginState" where
  "newPromise s = (length (promises s), s\<lparr>promises := promises s @ [None]\<rparr>)"

definition promise_value :: "PlacementInfo option list \<Rightarrow> nat \<Rightarrow> PlacementInfo option" where
  "promise_value ps p = (if p < length ps then ps ! p else None)"

definition settled :: "PluginState \<Rightarrow> nat \<Rightarrow> PlacementInfo option" where
  "settled s p = promise_value (promises s) p"

definition resolve :: "nat \<Rightarrow> PlacementInfo \<Rightarrow> PluginState \<Rightarrow> PluginState" where
  "resolve p v s =
     (if p < length (promises s) \<and> promises s ! p = None
      then s\<lparr>promises := (promises s)[p := Some v]\<rparr> else s)"

section \<open>The module\<close>

text \<open>Lines 10, 11, 55, 115, 117: the variables of a new instance.\<close>

definition googleAdPlacementPlugin :: "string \<Rightarrow> string option \<Rightarrow> Page \<Rightarrow> PluginState" where
  "googleAdPlacementPlugin pid hint page =
     \<lparr>publisherId = pid,
      adFrequencyHint = hint,
      initializeCalled = False,
      initializeContext = None,
      showRewardedAdFn = None,
      resolveRewardedAdFn = None,
      lastCallTime = 0,
      initState = InitIdle,
      loopState = LoopNotStarted,
      adsbygoogle = (case page_adsbygoogle page of None \<Rightarrow> [] | Some q \<Rightarrow> map ForeignItem q),
      documentHead = page_head page,
      promises = [],
      now = page_now page,
      needsPause = None,
      needsMute = None,
      canShowRewardedAd = None,
      effects = []\<rparr>"

definition adBreak :: "QueueItem \<Rightarrow> PluginState \<Rightarrow> PluginState" where
  "adBreak options s =
     s\<lparr>adsbygoogle := adsbygoogle s @ [options], effects := effects s @ [Push options]\<rparr>"

definition adConfig :: "QueueItem \<Rightarrow> PluginState \<Rightarrow> PluginState" where
  "adConfig options s =
     s\<lparr>adsbygoogle := adsbygoogle s @ [options], effects := effects s @ [Push options]\<rparr>"

definition beforeAd :: "PluginState \<Rightarrow> (Error + unit) \<times> PluginState" where
  "beforeAd s =
     (case initializeContext s of
        None \<Rightarrow> (Inl NotInitialized, s)
      | Some ctx \<Rightarrow> (Inr (), setNeedsMute True (setNeedsPause True s)))"

definition afterAd :: "PluginState \<Rightarrow> (Error + unit) \<times> PluginState" where
  "afterAd s =
     (case initializeContext s of
        None \<Rightarrow> (Inl NotInitialized, s)
      | Some ctx \<Rightarrow> (Inr (), setNeedsPause False (setNeedsMute False s)))"

definition placementInfoToAdLadResult :: "PlacementInfo \<Rightarrow> ShowFullScreenAdResult" where
  "placementInfoToAdLadResult placementInfo =
     (let status = breakStatus placementInfo in
      if status = ''viewed'' then \<lparr>didShowAd = True, errorReason = None\<rparr>
      else if status = ''frequencyCapped''
        then \<lparr>didShowAd = False, errorReason = Some ''time-constraint''\<rparr>
      else if status = ''dismissed''
        then \<lparr>didShowAd = False, errorReason = Some ''user-dismissed''\<rparr>
      else if status = ''notReady'' \<or> status = ''timeout'' \<or> status = ''noAdPreloaded''
        then \<lparr>didShowAd = False, errorReason = Some ''no-ad-available''\<rparr>
      else \<lparr>didShowAd = False, errorReason = Some ''unknown''\<rparr>)"

definition REWARDED_LOOP_RETRY_TIMEOUT :: rat where
  "REWARDED_LOOP_RETRY_TIMEOUT = 1000"

text \<open>
  Lines 126 to 151, one pass of the loop up to its \<^verbatim>\<open>await\<close>: the promise is created, its
  executor stores the time and pushes the request.
\<close>

definition rewardedLoop_iteration :: "PluginState \<Rightarrow> PluginState" where
  "rewardedLoop_iteration s =
     (let (p, s1) = newPromise s;
          s2 = s1\<lparr>lastCallTime := now s1\<rparr>;
          s3 = adBreak (AdBreakOptions Reward p) s2
      in s3\<lparr>loopState := LoopAwaiting p\<rparr>)"

text \<open>Lines 122 to 125: the entry of \<^verbatim>\<open>rewardedLoop\<close>, then the first pass.\<close>

definition rewardedLoop :: "PluginState \<Rightarrow> (Error + unit) \<times> PluginState" where
  "rewardedLoop s =
     (case initializeContext s of
        None \<Rightarrow> (Inl NotInitialized, s)
      | Some certainInitializeContext \<Rightarrow>
          (Inr (), rewardedLoop_iteration (s\<lparr>lastCallTime := 0\<rparr>)))"

text \<open>Lines 132 to 143: \<^verbatim>\<open>beforeReward\<close> of the request at queue index \<open>i\<close>.\<close>

definition beforeReward :: "nat \<Rightarrow> PluginState \<Rightarrow> PluginState" where
  "beforeReward i s = setCanShowRewardedAd True (s\<lparr>showRewardedAdFn := Some i\<rparr>)"

text \<open>Lines 133 to 141: the closure stored in \<^verbatim>\<open>showRewardedAdFn\<close>, called.\<close>

definition showRewardedAdFn_call :: "nat \<Rightarrow> PluginState \<Rightarrow> nat \<times> PluginState" where
  "showRewardedAdFn_call i s =
     (let s1 = setCanShowRewardedAd False s;
          s2 = s1\<lparr>effects := effects s1 @ [ShowAdFn i]\<rparr>;
          (p, s3) = newPromise s2
      in (p, s3\<lparr>resolveRewardedAdFn := Some p\<rparr>))"

text \<open>
  Lines 152 to 170: the loop after its promise has resolved with \<open>result\<close>, up to the
  timer or, when no time is left, through the next pass.
\<close>

definition rewardedLoop_resume :: "PlacementInfo \<Rightarrow> PluginState \<Rightarrow> PluginState" where
  "rewardedLoop_resume result s =
     (let s1 = (case resolveRewardedAdFn s of Some r \<Rightarrow> resolve r result s | None \<Rightarrow> s);
          s2 = s1\<lparr>resolveRewardedAdFn := None\<rparr>;
          s3 = s2\<lparr>showRewardedAdFn := None\<rparr>;
          s4 = setCanShowRewardedAd False s3;
          timePassed = now s4 - lastCallTime s4;
          timeLeft = REWARDED_LOOP_RETRY_TIMEOUT - timePassed
      in if timeLeft > 0
         then s4\<lparr>loopState := LoopSleeping timeLeft,
                 effects := effects s4 @ [SetTimeout timeLeft]\<rparr>
         else rewardedLoop_iteration s4)"

text \<open>Lines 177 to 207: \<^verbatim>\<open>initialize\<close> up to \<^verbatim>\<open>await promise\<close>.\<close>

definition scriptTag_of :: "PluginState \<Rightarrow> InitializeContext \<Rightarrow> ScriptTag" where
  "scriptTag_of s ctx =
     \<lparr>tag_async = True,
      tag_adClient = publisherId s,
      tag_adFrequencyHint =
        (case adFrequencyHint s of None \<Rightarrow> None | Some h \<Rightarrow> if h = [] then None else Some h),
      tag_adbreakTest = (if useTestAds ctx then Some ''on'' else None),
      tag_crossOrigin = ''anonymous'',
      tag_src = ''https://pagead2.googlesyndication.com/pagead/js/adsbygoogle.js?client=''
                  @ publisherId s\<rparr>"

definition initialize :: "InitializeContext \<Rightarrow> PluginState \<Rightarrow> (Error + unit) \<times> PluginState" where
  "initialize ctx s =
     (if initializeCalled s then (Inl AlreadyInitialized, s)
      else
        let s1 = s\<lparr>initializeCalled := True\<rparr>;
            s2 = s1\<lparr>initializeContext := Some ctx\<rparr>;
            s3 = setCanShowRewardedAd False s2;
            s4 = createElement ''script'' s3;
            s5 = appendChild (scriptTag_of s4 ctx) s4
        in (Inr (), s5\<lparr>initState := InitAwaitingScript\<rparr>))"

text \<open>Lines 209 to 213: after the script has loaded. \<^verbatim>\<open>rewardedLoop()\<close> is not awaited.\<close>

definition initialize_resume :: "PluginState \<Rightarrow> PluginState" where
  "initialize_resume s =
     (let s1 = adConfig (AdConfigOptions ''on'') s;
          s2 = snd (rewardedLoop s1)
      in s2\<lparr>initState := InitResolved\<rparr>)"

text \<open>Lines 217 to 229: the request is pushed; the result comes with the promise.\<close>

definition showFullScreenAd :: "PluginState \<Rightarrow> (Error + ShowOutcome) \<times> PluginState" where
  "showFullScreenAd s =
     (let (p, s1) = newPromise s;
          s2 = adBreak (AdBreakOptions Pause p) s1
      in (Inr (Awaiting p), s2))"

text \<open>Lines 230 to 239.\<close>

definition showRewardedAd :: "PluginState \<Rightarrow> (Error + ShowOutcome) \<times> PluginState" where
  "showRewardedAd s =
     (case showRewardedAdFn s of
        None \<Rightarrow> (Inr (Fulfilled \<lparr>didShowAd = False, errorReason = Some ''no-ad-available''\<rparr>), s)
      | Some i \<Rightarrow> (let (p, s1) = showRewardedAdFn_call i s in (Inr (Awaiting p), s1)))"

text \<open>
  What the promise returned by \<^verbatim>\<open>showFullScreenAd\<close> or \<^verbatim>\<open>showRewardedAd\<close> has settled to in
  state \<open>s\<close>: \<open>None\<close> while it is pending, otherwise the translated placement info.
\<close>

definition outcome_result :: "ShowOutcome \<Rightarrow> PluginState \<Rightarrow> ShowFullScreenAdResult option" where
  "outcome_result out s =
     (case out of
        Fulfilled r \<Rightarrow> Some r
      | Awaiting p \<Rightarrow> map_option placementInfoToAdLadResult (settled s p))"

section \<open>The earlier revision of the module\<close>

text \<open>
  The second source file is an earlier revision of \<^verbatim>\<open>mod.js\<close>: \<^verbatim>\<open>showAdHelper\<close> pushes one
  request and translates the placement info inline (lines 80 to 102), and \<^verbatim>\<open>initialize\<close>
  (lines 108 to 135) does not touch the rewarded-ad flag and has no test mode.
\<close>

definition showAdHelper_request :: "AdBreakType \<Rightarrow> PluginState \<Rightarrow> nat \<times> PluginState" where
  "showAdHelper_request ty s =
     (let (p, s1) = newPromise s in (p, adBreak (AdBreakOptions ty p) s1))"

definition showAdHelper_result :: "PlacementInfo \<Rightarrow> ShowFullScreenAdResult" where
  "showAdHelper_result googleResult =
     (let status = breakStatus googleResult in
      if status = ''viewed'' then \<lparr>didShowAd = True, errorReason = None\<rparr>
      else if status = ''frequencyCapped''
        then \<lparr>didShowAd = False, errorReason = Some ''time-constraint''\<rparr>
      else if status = ''dismissed''
        then \<lparr>didShowAd = False, errorReason = Some ''user-dismissed''\<rparr>
      else if status = ''notReady'' \<or> status = ''timeout'' \<or> status = ''noAdPreloaded''
        then \<lparr>didShowAd = False, errorReason = Some ''no-ad-available''\<rparr>
      else \<lparr>didShowAd = False, errorReason = Some ''unknown''\<rparr>)"

definition scriptTag_part_000 :: "PluginState \<Rightarrow> ScriptTag" where
  "scriptTag_part_000 s =
     \<lparr>tag_async = True,
      tag_adClient = publisherId s,
      tag_adFrequencyHint =
        (case adFrequencyHint s of None \<Rightarrow> None | Some h \<Rightarrow> if h = [] then None else Some h),
      tag_adbreakTest = None,
      tag_crossOrigin = ''anonymous'',
      tag_src = ''https://pagead2.googlesyndication.com/pagead/js/adsbygoogle.js?client=''
                  @ publisherId s\<rparr>"

definition initialize_part_000 ::
  "InitializeContext \<Rightarrow> PluginState \<Rightarrow> (Error + unit) \<times> PluginState" where
  "initialize_part_000 ctx s =
     (if initializeCalled s then (Inl AlreadyInitialized, s)
      else
        let s1 = s\<lparr>initializeCalled := True\<rparr>;
            s2 = s1\<lparr>initializeContext := Some ctx\<rparr>;
            s3 = createElement ''script'' s2;
            s4 = appendChild (scriptTag_part_000 s3) s3
        in (Inr (), s4\<lparr>initState := InitAwaitingScript\<rparr>))"

section \<open>The event loop\<close>

text \<open>
  Everything that can run code of the instance: the host calling the plugin's methods,
  the script element reporting, the vendor calling a hook of the request at a queue
  index, the loop's continuation once its promise has resolved, the timer, and time
  passing. The timer's callback (lines 165 to 167) resolves its promise whenever the page
  runs it and the loop does not read the clock again before its next pass, so \<open>TimerFire\<close>
  carries no condition on the clock: when the callback runs is the page's business. The
  clock does not go back. An event that finds nothing to run (a hook of an element that
  has none, a second load event) leaves the state as it is.
\<close>

datatype Event =
    HostInitialize InitializeContext
  | HostShowFullScreenAd
  | HostShowRewardedAd
  | ScriptLoad
  | ScriptError
  | VendorBeforeAd nat
  | VendorAfterAd nat
  | VendorBeforeReward nat
  | VendorAdDismissed nat
  | VendorAdViewed nat
  | VendorAdBreakDone nat PlacementInfo
  | LoopResume
  | TimerFire
  | Tick rat

definition item_at :: "PluginState \<Rightarrow> nat \<Rightarrow> QueueItem option" where
  "item_at s i = (if i < length (adsbygoogle s) then Some (adsbygoogle s ! i) else None)"

fun step :: "PluginState \<Rightarrow> Event \<Rightarrow> PluginState" where
  "step s (HostInitialize ctx) = snd (initialize ctx s)"
| "step s HostShowFullScreenAd = snd (showFullScreenAd s)"
| "step s HostShowRewardedAd = snd (showRewardedAd s)"
| "step s ScriptLoad =
     (if initState s = InitAwaitingScript then initialize_resume s else s)"
| "step s ScriptError =
     (if initState s = InitAwaitingScript then s\<lparr>initState := InitRejected\<rparr> else s)"
| "step s (VendorBeforeAd i) =
     (case item_at s i of Some (AdBreakOptions ty p) \<Rightarrow> snd (beforeAd s) | _ \<Rightarrow> s)"
| "step s (VendorAfterAd i) =
     (case item_at s i of Some (AdBreakOptions ty p) \<Rightarrow> snd (afterAd s) | _ \<Rightarrow> s)"
| "step s (VendorBeforeReward i) =
     (case item_at s i of Some (AdBreakOptions Reward p) \<Rightarrow> beforeReward i s | _ \<Rightarrow> s)"
| "step s (VendorAdDismissed i) = s"
| "step s (VendorAdViewed i) = s"
| "step s (VendorAdBreakDone i placementInfo) =
     (case item_at s i of Some (AdBreakOptions ty p) \<Rightarrow> resolve p placementInfo s | _ \<Rightarrow> s)"
| "step s LoopResume =
     (case loopState s of
        LoopAwaiting p \<Rightarrow>
          (case settled s p of Some result \<Rightarrow> rewardedLoop_resume result s | None \<Rightarrow> s)
      | _ \<Rightarrow> s)"
| "step s TimerFire =
     (case loopState s of
        LoopSleeping timeLeft \<Rightarrow> rewardedLoop_iteration s
      | _ \<Rightarrow> s)"
| "step s (Tick d) = s\<lparr>now := now s + max 0 d\<rparr>"

definition run :: "PluginState \<Rightarrow> Event list \<Rightarrow> PluginState" where
  "run s es = foldl step s es"

section \<open>Observations on states and events\<close>

fun is_HostInitialize :: "Event \<Rightarrow> bool" where
  "is_HostInitialize (HostInitialize ctx) = True"
| "is_HostInitialize e = False"

fun is_VendorBeforeReward :: "Event \<Rightarrow> bool" where
  "is_VendorBeforeReward (VendorBeforeReward i) = True"
| "is_VendorBeforeReward e = False"

fun is_ShowAdFn :: "Effect \<Rightarrow> bool" where
  "is_ShowAdFn (ShowAdFn i) = True"
| "is_ShowAdFn e = False"

fun promise_of :: "QueueItem \<Rightarrow> nat list" where
  "promise_of (AdBreakOptions ty p) = [p]"
| "promise_of item = []"

fun reward_promise :: "QueueItem \<Rightarrow> nat list" where
  "reward_promise (AdBreakOptions Reward p) = [p]"
| "reward_promise item = []"

text \<open>
  The promises of the rewarded requests the loop has pushed, in the order of the
  pushes: one per Requesting attempt. An attempt is outstanding while its promise is
  pending, that is, until \<^verbatim>\<open>adBreakDone\<close> of its request has fired.
\<close>

definition attempts :: "PluginState \<Rightarrow> nat list" where
  "attempts s = concat (map reward_promise (adsbygoogle s))"

definition outstanding :: "PluginState \<Rightarrow> nat list" where
  "outstanding s = filter (\<lambda>p. settled s p = None) (attempts s)"

definition queue_promises :: "PluginState \<Rightarrow> nat list" where
  "queue_promises s = concat (map promise_of (adsbygoogle s))"

text \<open>The loop waits for its timer.\<close>

definition loop_sleeping :: "PluginState \<Rightarrow> bool" where
  "loop_sleeping s = (case loopState s of LoopSleeping timeLeft \<Rightarrow> True | _ \<Rightarrow> False)"

text \<open>The elements pushed onto the queue, read off the logged effects.\<close>

fun pushed :: "Effect list \<Rightarrow> QueueItem list" where
  "pushed [] = []"
| "pushed (Push item # es) = item # pushed es"
| "pushed (e # es) = pushed es"

text \<open>What holds of an instance as long as \<^verbatim>\<open>initialize\<close> has not been called.\<close>

definition pre_init :: "PluginState \<Rightarrow> bool" where
  "pre_init s = (\<not> initializeCalled s \<and> initializeContext s = None \<and> showRewardedAdFn s = None \<and>
     attempts s = [] \<and> loopState s = LoopNotStarted \<and> initState s = InitIdle)"

text \<open>The invariant of the reachable states that the theorems below rest on.\<close>

definition loop_inv :: "PluginState \<Rightarrow> bool" where
  "loop_inv s =
     (case loopState s of
        LoopNotStarted \<Rightarrow> attempts s = []
      | LoopAwaiting p \<Rightarrow>
          initState s = InitResolved \<and>
          attempts s \<noteq> [] \<and> last (attempts s) = p \<and>
          list_all (\<lambda>q. settled s q \<noteq> None) (butlast (attempts s))
      | LoopSleeping timeLeft \<Rightarrow>
          initState s = InitResolved \<and>
          list_all (\<lambda>q. settled s q \<noteq> None) (attempts s))"

definition store_inv :: "PluginState \<Rightarrow> bool" where
  "store_inv s =
     (list_all (\<lambda>p. p < length (promises s)) (queue_promises s) \<and>
      (case resolveRewardedAdFn s of
         None \<Rightarrow> True
       | Some r \<Rightarrow> r < length (promises s) \<and> settled s r = None \<and>
                   r \<notin> set (queue_promises s)))"

definition plugin_inv :: "PluginState \<Rightarrow> bool" where
  "plugin_inv s = (loop_inv s \<and> store_inv s \<and> (initializeCalled s \<or> initState s = InitIdle))"

text \<open>
  Lines 154 to 159 as one update: what the loop does to the state once its promise has
  resolved, before it looks at the clock.
\<close>

definition after_completion :: "PlacementInfo \<Rightarrow> PluginState \<Rightarrow> PluginState" where
  "after_completion result s =
     setCanShowRewardedAd False
       ((case resolveRewardedAdFn s of Some r \<Rightarrow> resolve r result s | None \<Rightarrow> s)
          \<lparr>resolveRewardedAdFn := None, showRewardedAdFn := None\<rparr>)"

section \<open>Example inputs\<close>

definition info :: "string \<Rightarrow> PlacementInfo" where
  "info st = \<lparr>breakType = Reward, breakName = [], breakFormat = RewardFormat, breakStatus = st\<rparr>"

definition example_page :: Page where
  "example_page = \<lparr>page_adsbygoogle = None, page_head = [], page_now = 0\<rparr>"

definition example_ctx :: InitializeContext where
  "example_ctx = \<lparr>useTestAds = False\<rparr>"

definition example_plugin :: PluginState where
  "example_plugin = googleAdPlacementPlugin ''ca-pub-1'' None example_page"

definition offered_and_triggered :: PluginState where
  "offered_and_triggered =
     run example_plugin [HostInitialize example_ctx, ScriptLoad, VendorBeforeReward 1, HostShowRewardedAd]"

definition requesting_300 :: PluginState where
  "requesting_300 = run example_plugin [HostInitialize example_ctx, ScriptLoad, Tick 300]"

definition sleeping_700 :: PluginState where
  "sleeping_700 = run example_plugin [HostInitialize example_ctx, ScriptLoad, Tick 300,
     VendorAdBreakDone 1 (info ''frequencyCapped''), Tick 0, LoopResume]"

definition early_timer :: PluginState where
  "early_timer = run requesting_300
     [VendorAdBreakDone 1 (info ''frequencyCapped''), LoopResume, Tick 699.818, TimerFire]"

section \<open>Basic facts\<close>

lemmas host_defs = setNeedsPause_def setNeedsMute_def setCanShowRewardedAd_def
  createElement_def appendChild_def

lemmas inv_defs = plugin_inv_def loop_inv_def store_inv_def attempts_def queue_promises_def settled_def

lemma promise_value_append_None [simp]: "promise_value (ps @ [None]) q = promise_value ps q"
  by (simp add: promise_value_def nth_append)

lemma promise_value_update:
  "promise_value (ps[p := Some v]) q = (if q = p \<and> p < length ps then Some v else promise_value ps q)"
  by (auto simp: promise_value_def)

lemma promise_value_fresh [simp]: "promise_value ps (length ps) = None"
  by (simp add: promise_value_def)

lemma promise_value_Some_less: "promise_value ps q = Some v \<Longrightarrow> q < length ps"
  by (simp add: promise_value_def split: if_splits)

lemma promise_of_reward: "set (reward_promise it) \<subseteq> set (promise_of it)"
  by (cases it rule: reward_promise.cases) auto

lemma inv_iteration:
  assumes "store_inv s" "list_all (\<lambda>q. settled s q \<noteq> None) (attempts s)"
    "initState s = InitResolved" "initializeCalled s"
  shows "plugin_inv (rewardedLoop_iteration s)"
  using assms
  by (auto simp: inv_defs rewardedLoop_iteration_def newPromise_def adBreak_def
     list_all_iff nth_append less_SucI split: option.splits LoopState.splits)

lemma inv_unrelated:
  assumes "plugin_inv s" "promises t = promises s" "adsbygoogle t = adsbygoogle s" "loopState t = loopState s"
    "lastCallTime t = lastCallTime s" "resolveRewardedAdFn t = resolveRewardedAdFn s"
    "initializeCalled t = initializeCalled s" "initState t = initState s"
  shows "plugin_inv t"
  using assms by (auto simp: inv_defs split: option.splits LoopState.splits)

lemma inv_host [simp]:
  "plugin_inv (setNeedsPause b s) = plugin_inv s" "plugin_inv (setNeedsMute b s) = plugin_inv s" "plugin_inv (setCanShowRewardedAd b s) = plugin_inv s"
  by (auto simp: inv_defs host_defs split: option.splits LoopState.splits)

lemma inv_initialize: "plugin_inv s \<Longrightarrow> plugin_inv (snd (initialize ctx s))"
  by (auto simp: initialize_def Let_def host_defs inv_defs split: option.splits LoopState.splits)

lemma inv_showFullScreenAd: "plugin_inv s \<Longrightarrow> plugin_inv (snd (showFullScreenAd s))"
  by (auto simp: showFullScreenAd_def newPromise_def adBreak_def inv_defs list_all_iff nth_append less_SucI
      split: option.splits LoopState.splits)

lemma inv_showRewardedAd: "plugin_inv s \<Longrightarrow> plugin_inv (snd (showRewardedAd s))"
  by (auto simp: showRewardedAd_def showRewardedAdFn_call_def newPromise_def host_defs Let_def inv_defs
      list_all_iff nth_append less_SucI
      split: option.splits LoopState.splits)

lemma inv_initialize_resume:
  "plugin_inv s \<Longrightarrow> initState s = InitAwaitingScript \<Longrightarrow> plugin_inv (initialize_resume s)"
  by (auto simp: initialize_resume_def adConfig_def rewardedLoop_def rewardedLoop_iteration_def newPromise_def
      adBreak_def Let_def inv_defs list_all_iff nth_append less_SucI
      split: option.splits LoopState.splits)

lemma inv_beforeAd: "plugin_inv s \<Longrightarrow> plugin_inv (snd (beforeAd s))"
  by (simp add: beforeAd_def split: option.splits)

lemma inv_afterAd: "plugin_inv s \<Longrightarrow> plugin_inv (snd (afterAd s))"
  by (simp add: afterAd_def split: option.splits)

lemma inv_beforeReward: "plugin_inv s \<Longrightarrow> plugin_inv (beforeReward i s)"
  by (simp add: beforeReward_def) (rule inv_unrelated[of s], simp_all)

lemma promises_resolve:
  "promises (resolve p v s) =
     (if p < length (promises s) \<and> promise_value (promises s) p = None
      then (promises s)[p := Some v] else promises s)"
  by (auto simp: resolve_def promise_value_def)

lemma resolve_fields [simp]:
  "adsbygoogle (resolve p v s) = adsbygoogle s"
  "loopState (resolve p v s) = loopState s"
  "lastCallTime (resolve p v s) = lastCallTime s"
  "resolveRewardedAdFn (resolve p v s) = resolveRewardedAdFn s"
  "initializeCalled (resolve p v s) = initializeCalled s"
  "initState (resolve p v s) = initState s"
  "length (promises (resolve p v s)) = length (promises s)"
  by (simp_all add: resolve_def)

lemma inv_resolve_queue:
  assumes "plugin_inv s" "p \<in> set (queue_promises s)"
  shows "plugin_inv (resolve p v s)"
  using assms
  by (auto simp: inv_defs list_all_iff promise_value_update promises_resolve
      split: option.splits LoopState.splits)

lemma item_at_mem: "item_at s i = Some it \<Longrightarrow> it \<in> set (adsbygoogle s)"
  by (auto simp: item_at_def split: if_splits)

lemma item_at_promise:
  "item_at s i = Some (AdBreakOptions ty p) \<Longrightarrow> p \<in> set (queue_promises s)"
  by (drule item_at_mem) (force simp: queue_promises_def)

lemma inv_resolve_resolver:
  assumes "plugin_inv s" "resolveRewardedAdFn s = Some r"
  shows "plugin_inv ((resolve r v s)\<lparr>resolveRewardedAdFn := None\<rparr>)"
  using assms
  by (auto simp: inv_defs list_all_iff promise_value_update promises_resolve
      split: option.splits LoopState.splits)

lemma inv_clear_resolver:
  assumes "plugin_inv s"
  shows "plugin_inv (s\<lparr>resolveRewardedAdFn := None\<rparr>)"
  using assms
  by (auto simp: inv_defs split: option.splits LoopState.splits)

lemma all_settled:
  assumes "plugin_inv s" "loopState s = LoopAwaiting p" "settled s p \<noteq> None"
  shows "list_all (\<lambda>q. settled s q \<noteq> None) (attempts s)"
proof -
  from assms have ne: "attempts s \<noteq> []" and l: "last (attempts s) = p"
    and b: "list_all (\<lambda>q. settled s q \<noteq> None) (butlast (attempts s))"
    by (simp_all add: plugin_inv_def loop_inv_def)
  have "attempts s = butlast (attempts s) @ [p]"
    using ne l by (metis append_butlast_last_id)
  then have "list_all (\<lambda>q. settled s q \<noteq> None) (attempts s)
      = list_all (\<lambda>q. settled s q \<noteq> None) (butlast (attempts s) @ [p])"
    by simp
  with b assms(3) show ?thesis by simp
qed

lemma settled_resolve_keeps: "settled s q \<noteq> None \<Longrightarrow> settled (resolve r v s) q = settled s q"
  by (auto simp: settled_def promises_resolve promise_value_update)

lemma rewardedLoop_resume_eq:
  "rewardedLoop_resume result s =
     (let s4 = after_completion result s;
          timeLeft = REWARDED_LOOP_RETRY_TIMEOUT - (now s - lastCallTime s)
      in if timeLeft > 0
         then s4\<lparr>loopState := LoopSleeping timeLeft,
                 effects := effects s4 @ [SetTimeout timeLeft]\<rparr>
         else rewardedLoop_iteration s4)"
  by (auto simp: rewardedLoop_resume_def after_completion_def Let_def setCanShowRewardedAd_def
      resolve_def split: option.splits)

lemma inv_after_completion:
  assumes "plugin_inv s" "loopState s = LoopAwaiting p" "settled s p \<noteq> None"
  shows "plugin_inv (after_completion result s)"
    and "list_all (\<lambda>q. settled (after_completion result s) q \<noteq> None) (attempts (after_completion result s))"
    and "loopState (after_completion result s) = LoopAwaiting p"
    and "lastCallTime (after_completion result s) = lastCallTime s"
proof -
  let ?s1 = "(case resolveRewardedAdFn s of Some r \<Rightarrow> resolve r result s | None \<Rightarrow> s)\<lparr>resolveRewardedAdFn := None\<rparr>"
  have i1: "plugin_inv ?s1"
    using assms(1) by (auto split: option.splits intro: inv_resolve_resolver inv_clear_resolver)
  have l1: "loopState ?s1 = LoopAwaiting p" "lastCallTime ?s1 = lastCallTime s"
    using assms(2) by (auto split: option.splits)
  have s1: "settled ?s1 p \<noteq> None"
    using assms(3) by (auto simp: settled_def promises_resolve promise_value_update split: option.splits)
  have a1: "list_all (\<lambda>q. settled ?s1 q \<noteq> None) (attempts ?s1)"
    by (rule all_settled[OF i1 l1(1) s1])
  have eq: "after_completion result s = setCanShowRewardedAd False (?s1\<lparr>showRewardedAdFn := None\<rparr>)"
    by (simp add: after_completion_def)
  have i2: "plugin_inv (?s1\<lparr>showRewardedAdFn := None\<rparr>)"
    by (rule inv_unrelated[OF i1]) simp_all
  show "plugin_inv (after_completion result s)" using i2 by (simp add: eq)
  show "list_all (\<lambda>q. settled (after_completion result s) q \<noteq> None) (attempts (after_completion result s))"
    using a1 by (simp add: eq setCanShowRewardedAd_def settled_def attempts_def)
  show "loopState (after_completion result s) = LoopAwaiting p"
    using l1 by (simp add: eq setCanShowRewardedAd_def)
  show "lastCallTime (after_completion result s) = lastCallTime s"
    using l1 by (simp add: eq setCanShowRewardedAd_def)
qed

lemma inv_rewardedLoop_resume:
  assumes "plugin_inv s" "loopState s = LoopAwaiting p" "settled s p \<noteq> None"
  shows "plugin_inv (rewardedLoop_resume result s)"
proof -
  let ?s4 = "after_completion result s"
  note ac = inv_after_completion[OF assms, of result]
  have init: "initState ?s4 = InitResolved" "initializeCalled ?s4"
    using ac(1) ac(3) by (auto simp: plugin_inv_def loop_inv_def)
  show ?thesis
  proof (cases "REWARDED_LOOP_RETRY_TIMEOUT - (now s - lastCallTime s) > 0")
    case True
    have "plugin_inv (?s4\<lparr>loopState := LoopSleeping (REWARDED_LOOP_RETRY_TIMEOUT - (now s - lastCallTime s)),
                 effects := effects ?s4 @ [SetTimeout (REWARDED_LOOP_RETRY_TIMEOUT - (now s - lastCallTime s))]\<rparr>)"
      using ac init by (auto simp: inv_defs split: option.splits)
    with True show ?thesis by (simp add: rewardedLoop_resume_eq Let_def)
  next
    case False
    have "plugin_inv (rewardedLoop_iteration ?s4)"
      using ac init by (intro inv_iteration) (simp_all add: plugin_inv_def)
    with False show ?thesis by (simp add: rewardedLoop_resume_eq Let_def)
  qed
qed

lemma inv_timer:
  assumes "plugin_inv s" "loopState s = LoopSleeping timeLeft"
  shows "plugin_inv (rewardedLoop_iteration s)"
  using assms by (intro inv_iteration) (auto simp: plugin_inv_def loop_inv_def)

lemma inv_step: "plugin_inv s \<Longrightarrow> plugin_inv (step s e)"
proof (cases e)
  case (HostInitialize ctx) assume "plugin_inv s" then show ?thesis by (simp add: HostInitialize inv_initialize)
next
  case HostShowFullScreenAd assume "plugin_inv s" then show ?thesis by (simp add: HostShowFullScreenAd inv_showFullScreenAd)
next
  case HostShowRewardedAd assume "plugin_inv s" then show ?thesis by (simp add: HostShowRewardedAd inv_showRewardedAd)
next
  case ScriptLoad assume i: "plugin_inv s"
  show ?thesis
  proof (cases "initState s = InitAwaitingScript")
    case True
    then show ?thesis using i by (simp add: ScriptLoad inv_initialize_resume)
  next
    case False then show ?thesis using i by (simp add: ScriptLoad)
  qed
next
  case ScriptError assume i: "plugin_inv s"
  have "plugin_inv (s\<lparr>initState := InitRejected\<rparr>)" if "initState s = InitAwaitingScript"
    using i that by (auto simp: inv_defs split: LoopState.splits option.splits)
  then show ?thesis using i by (simp add: ScriptError)
next
  case (VendorBeforeAd i) assume "plugin_inv s" then show ?thesis
    by (simp add: VendorBeforeAd inv_beforeAd split: option.splits QueueItem.splits)
next
  case (VendorAfterAd i) assume "plugin_inv s" then show ?thesis
    by (simp add: VendorAfterAd inv_afterAd split: option.splits QueueItem.splits)
next
  case (VendorBeforeReward i) assume "plugin_inv s" then show ?thesis
    by (simp add: VendorBeforeReward inv_beforeReward split: option.splits QueueItem.splits AdBreakType.splits)
next
  case (VendorAdDismissed i) assume "plugin_inv s" then show ?thesis by (simp add: VendorAdDismissed)
next
  case (VendorAdViewed i) assume "plugin_inv s" then show ?thesis by (simp add: VendorAdViewed)
next
  case (VendorAdBreakDone i pinfo) assume "plugin_inv s" then show ?thesis
    by (auto simp: VendorAdBreakDone split: option.splits QueueItem.splits
        intro: inv_resolve_queue item_at_promise)
next
  case LoopResume assume "plugin_inv s" then show ?thesis
    by (auto simp: LoopResume split: LoopState.splits option.splits intro: inv_rewardedLoop_resume)
next
  case TimerFire assume "plugin_inv s" then show ?thesis
    by (auto simp: TimerFire split: LoopState.splits intro: inv_timer)
next
  case (Tick d) assume i: "plugin_inv s"
  show ?thesis unfolding Tick step.simps by (rule inv_unrelated[OF i]) simp_all
qed

section \<open>Runs of the event loop\<close>

lemmas op_defs = adBreak_def adConfig_def beforeAd_def afterAd_def rewardedLoop_iteration_def
  rewardedLoop_def beforeReward_def showRewardedAdFn_call_def rewardedLoop_resume_def
  initialize_def initialize_resume_def showFullScreenAd_def showRewardedAd_def
  newPromise_def resolve_def item_at_def

lemma run_Nil [simp]: "run s [] = s"
  by (simp add: run_def)

lemma run_Cons [simp]: "run s (e # es) = run (step s e) es"
  by (simp add: run_def)

lemma run_snoc: "run s (es @ [e]) = step (run s es) e"
  by (simp add: run_def)

lemma inv_run: "plugin_inv s \<Longrightarrow> plugin_inv (run s es)"
  by (induction es arbitrary: s) (simp_all add: inv_step)

lemma inv_init: "plugin_inv (googleAdPlacementPlugin pid hint page)"
  by (auto simp: inv_defs googleAdPlacementPlugin_def list_all_iff comp_def split: option.splits)

lemma initializeCalled_step: "initializeCalled s \<Longrightarrow> initializeCalled (step s e)"
  by (cases e) (auto simp: host_defs op_defs Let_def
      split: option.splits QueueItem.splits AdBreakType.splits LoopState.splits)

lemma initializeCalled_run: "initializeCalled s \<Longrightarrow> initializeCalled (run s es)"
  by (induction es arbitrary: s) (simp_all add: initializeCalled_step)

lemma initializeCalled_initialize: "initializeCalled (snd (initialize ctx s))"
  by (simp add: initialize_def Let_def host_defs)

lemma canShow_step:
  "canShowRewardedAd s = Some False \<Longrightarrow> \<not> is_VendorBeforeReward e \<Longrightarrow>
   canShowRewardedAd (step s e) = Some False"
  by (cases e) (auto simp: host_defs op_defs Let_def
      split: option.splits QueueItem.splits AdBreakType.splits LoopState.splits)

lemma canShow_run:
  "canShowRewardedAd s = Some False \<Longrightarrow> \<forall>e\<in>set es. \<not> is_VendorBeforeReward e \<Longrightarrow>
   canShowRewardedAd (run s es) = Some False"
  by (induction es arbitrary: s) (simp_all add: canShow_step)

lemma trigger_step:
  "showRewardedAdFn s = None \<Longrightarrow> \<not> is_VendorBeforeReward e \<Longrightarrow> showRewardedAdFn (step s e) = None"
  by (cases e) (auto simp: host_defs op_defs Let_def
      split: option.splits QueueItem.splits AdBreakType.splits LoopState.splits)

lemma trigger_run:
  "showRewardedAdFn s = None \<Longrightarrow> \<forall>e\<in>set es. \<not> is_VendorBeforeReward e \<Longrightarrow>
   showRewardedAdFn (run s es) = None"
  by (induction es arbitrary: s) (simp_all add: trigger_step)

lemma queue_step: "\<exists>ys. adsbygoogle (step s e) = adsbygoogle s @ ys"
  by (cases e) (auto simp: host_defs op_defs Let_def
      split: option.splits QueueItem.splits AdBreakType.splits LoopState.splits)

lemma queue_run: "\<exists>ys. adsbygoogle (run s es) = adsbygoogle s @ ys"
proof (induction es arbitrary: s)
  case Nil show ?case by simp
next
  case (Cons e es)
  obtain ys where 1: "adsbygoogle (step s e) = adsbygoogle s @ ys" using queue_step by blast
  obtain zs where 2: "adsbygoogle (run (step s e) es) = adsbygoogle (step s e) @ zs" using Cons by blast
  show ?case using 1 2 by simp
qed

section \<open>The result translator\<close>

text \<open>
  C1. Both translations, \<^verbatim>\<open>placementInfoToAdLadResult\<close> and the inline one of
  \<^verbatim>\<open>showAdHelper\<close>, follow the table for every placement info: "viewed" shows the ad
  with no error reason, "frequencyCapped" is a time constraint, "dismissed" is a user
  dismissal, "notReady", "timeout" and "noAdPreloaded" mean no ad is available, and every
  other status is unknown. They are functions of the placement info alone, defined on
  every string, with no state and no error result.
\<close>

theorem result_translator_table:
  "(breakStatus p = ''viewed'' \<longrightarrow>
      placementInfoToAdLadResult p = \<lparr>didShowAd = True, errorReason = None\<rparr>) \<and>
   (breakStatus p = ''frequencyCapped'' \<longrightarrow>
      placementInfoToAdLadResult p = \<lparr>didShowAd = False, errorReason = Some ''time-constraint''\<rparr>) \<and>
   (breakStatus p = ''dismissed'' \<longrightarrow>
      placementInfoToAdLadResult p = \<lparr>didShowAd = False, errorReason = Some ''user-dismissed''\<rparr>) \<and>
   (breakStatus p \<in> {''notReady'', ''timeout'', ''noAdPreloaded''} \<longrightarrow>
      placementInfoToAdLadResult p = \<lparr>didShowAd = False, errorReason = Some ''no-ad-available''\<rparr>) \<and>
   (breakStatus p \<notin> {''viewed'', ''frequencyCapped'', ''dismissed'', ''notReady'', ''timeout'',
        ''noAdPreloaded''} \<longrightarrow>
      placementInfoToAdLadResult p = \<lparr>didShowAd = False, errorReason = Some ''unknown''\<rparr>) \<and>
   showAdHelper_result p = placementInfoToAdLadResult p"
  by (simp add: placementInfoToAdLadResult_def showAdHelper_result_def Let_def)

theorem result_translator_table_witness:
  "placementInfoToAdLadResult (info ''viewed'') = \<lparr>didShowAd = True, errorReason = None\<rparr> \<and>
   placementInfoToAdLadResult (info ''frequencyCapped'')
     = \<lparr>didShowAd = False, errorReason = Some ''time-constraint''\<rparr> \<and>
   placementInfoToAdLadResult (info ''dismissed'')
     = \<lparr>didShowAd = False, errorReason = Some ''user-dismissed''\<rparr> \<and>
   placementInfoToAdLadResult (info ''notReady'')
     = \<lparr>didShowAd = False, errorReason = Some ''no-ad-available''\<rparr> \<and>
   placementInfoToAdLadResult (info ''timeout'')
     = \<lparr>didShowAd = False, errorReason = Some ''no-ad-available''\<rparr> \<and>
   placementInfoToAdLadResult (info ''noAdPreloaded'')
     = \<lparr>didShowAd = False, errorReason = Some ''no-ad-available''\<rparr> \<and>
   placementInfoToAdLadResult (info ''error'')
     = \<lparr>didShowAd = False, errorReason = Some ''unknown''\<rparr> \<and>
   showAdHelper_result (info ''ignored'') = \<lparr>didShowAd = False, errorReason = Some ''unknown''\<rparr>"
  using result_translator_table [of "info ''viewed''"]
    result_translator_table [of "info ''frequencyCapped''"]
    result_translator_table [of "info ''dismissed''"]
    result_translator_table [of "info ''notReady''"]
    result_translator_table [of "info ''timeout''"]
    result_translator_table [of "info ''noAdPreloaded''"]
    result_translator_table [of "info ''error''"]
    result_translator_table [of "info ''ignored''"]
  by (simp add: info_def)

lemmas example_defs = example_page_def example_ctx_def example_plugin_def info_def
  googleAdPlacementPlugin_def scriptTag_of_def settled_def promise_value_def

lemma item_at_attempt:
  "item_at s i = Some (AdBreakOptions Reward p) \<Longrightarrow> p \<in> set (attempts s)"
  by (drule item_at_mem) (force simp: attempts_def)

lemma pushed_append [simp]: "pushed (xs @ ys) = pushed xs @ pushed ys"
  by (induction xs rule: pushed.induct) simp_all

lemma pre_init_step: "pre_init s \<Longrightarrow> \<not> is_HostInitialize e \<Longrightarrow> pre_init (step s e)"
proof (cases e)
  case (VendorBeforeReward i)
  assume p: "pre_init s"
  then have "item_at s i \<noteq> Some (AdBreakOptions Reward q)" for q
    using item_at_attempt[of s i q] by (auto simp: pre_init_def)
  with p show ?thesis
    by (auto simp: VendorBeforeReward split: option.splits QueueItem.splits AdBreakType.splits)
qed (auto simp: pre_init_def attempts_def host_defs op_defs Let_def
      split: option.splits QueueItem.splits AdBreakType.splits LoopState.splits)

lemma pre_init_run: "pre_init s \<Longrightarrow> \<forall>e\<in>set es. \<not> is_HostInitialize e \<Longrightarrow> pre_init (run s es)"
  by (induction es arbitrary: s) (simp_all add: pre_init_step)

lemma pre_init_new: "pre_init (googleAdPlacementPlugin pid hint page)"
  by (auto simp: pre_init_def googleAdPlacementPlugin_def attempts_def split: option.splits)

lemma not_offered_step:
  "canShowRewardedAd s \<noteq> Some True \<Longrightarrow> \<not> is_VendorBeforeReward e \<Longrightarrow>
   canShowRewardedAd (step s e) \<noteq> Some True"
  by (cases e) (auto simp: host_defs op_defs Let_def
      split: option.splits QueueItem.splits AdBreakType.splits LoopState.splits)

lemma not_offered_run:
  "canShowRewardedAd s \<noteq> Some True \<Longrightarrow> \<forall>e\<in>set es. \<not> is_VendorBeforeReward e \<Longrightarrow>
   canShowRewardedAd (run s es) \<noteq> Some True"
  by (induction es arbitrary: s) (simp_all add: not_offered_step)

lemma offer_step:
  "canShowRewardedAd s = Some True \<longrightarrow> showRewardedAdFn s \<noteq> None \<Longrightarrow>
   canShowRewardedAd (step s e) = Some True \<longrightarrow> showRewardedAdFn (step s e) \<noteq> None"
  by (cases e) (auto simp: host_defs op_defs Let_def
      split: option.splits QueueItem.splits AdBreakType.splits LoopState.splits)

lemma offer_has_trigger:
  "canShowRewardedAd s = Some True \<longrightarrow> showRewardedAdFn s \<noteq> None \<Longrightarrow>
   canShowRewardedAd (run s es) = Some True \<longrightarrow> showRewardedAdFn (run s es) \<noteq> None"
proof (induction es arbitrary: s)
  case Nil
  then show ?case by simp
next
  case (Cons e es)
  have "canShowRewardedAd (step s e) = Some True \<longrightarrow> showRewardedAdFn (step s e) \<noteq> None"
    by (rule offer_step) (rule Cons.prems)
  then show ?case using Cons.IH [of "step s e"] by simp
qed

lemma pushed_step:
  "\<exists>ys. adsbygoogle (step s e) = adsbygoogle s @ ys \<and> pushed (effects (step s e)) = pushed (effects s) @ ys"
  by (cases e) (auto simp: host_defs op_defs Let_def
      split: option.splits QueueItem.splits AdBreakType.splits LoopState.splits)

lemma pushed_run:
  "\<exists>ys. adsbygoogle (run s es) = adsbygoogle s @ ys \<and> pushed (effects (run s es)) = pushed (effects s) @ ys"
proof (induction es arbitrary: s)
  case Nil show ?case by simp
next
  case (Cons e es)
  obtain ys where 1: "adsbygoogle (step s e) = adsbygoogle s @ ys"
    "pushed (effects (step s e)) = pushed (effects s) @ ys" using pushed_step by blast
  obtain zs where 2: "adsbygoogle (run (step s e) es) = adsbygoogle (step s e) @ zs"
    "pushed (effects (run (step s e) es)) = pushed (effects (step s e)) @ zs" using Cons by blast
  show ?case using 1 2 by simp
qed

section \<open>Initialization\<close>

text \<open>
  C7. A second call of \<^verbatim>\<open>initialize\<close> on the same instance fails, whatever happened
  after the first call, and returns the state it was given: no field, no element of the
  document head, no queue entry and no logged effect is added. The same holds for the
  earlier revision of the module, and for any state in which the guard is set.
\<close>
theorem initialize_twice_fails:
  "initialize ctx2 (run (snd (initialize ctx1 s)) es)
     = (Inl AlreadyInitialized, run (snd (initialize ctx1 s)) es) \<and>
   initialize_part_000 ctx2 (snd (initialize_part_000 ctx1 s))
     = (Inl AlreadyInitialized, snd (initialize_part_000 ctx1 s)) \<and>
   (initializeCalled t \<longrightarrow>
      initialize ctx2 t = (Inl AlreadyInitialized, t) \<and>
      initialize_part_000 ctx2 t = (Inl AlreadyInitialized, t))"
proof -
  have "initializeCalled (run (snd (initialize ctx1 s)) es)"
    by (rule initializeCalled_run) (rule initializeCalled_initialize)
  then have "initialize ctx2 (run (snd (initialize ctx1 s)) es)
     = (Inl AlreadyInitialized, run (snd (initialize ctx1 s)) es)"
    by (simp add: initialize_def)
  moreover have "initializeCalled (snd (initialize_part_000 ctx1 s))"
    by (simp add: initialize_part_000_def Let_def host_defs)
  then have "initialize_part_000 ctx2 (snd (initialize_part_000 ctx1 s))
     = (Inl AlreadyInitialized, snd (initialize_part_000 ctx1 s))"
    by (simp add: initialize_part_000_def)
  ultimately show ?thesis
    by (simp add: initialize_def initialize_part_000_def)
qed

theorem initialize_twice_fails_witness:
  "initialize example_ctx (run (snd (initialize example_ctx example_plugin)) [ScriptLoad, HostShowRewardedAd])
     = (Inl AlreadyInitialized,
        run (snd (initialize example_ctx example_plugin)) [ScriptLoad, HostShowRewardedAd]) \<and>
   initializeCalled (snd (initialize example_ctx example_plugin)) \<and>
   initialize_part_000 example_ctx (snd (initialize example_ctx example_plugin))
     = (Inl AlreadyInitialized, snd (initialize example_ctx example_plugin))"
  using initialize_twice_fails [of example_ctx example_ctx example_plugin "[ScriptLoad, HostShowRewardedAd]"
      "snd (initialize example_ctx example_plugin)"]
    initializeCalled_initialize [of example_ctx example_plugin]
  by simp

text \<open>
  C9. A first call of \<^verbatim>\<open>initialize\<close> does not fail, and what it does before its
  \<^verbatim>\<open>await\<close> starts with \<^verbatim>\<open>setCanShowRewardedAd(false)\<close>: the script element is created
  and appended to the head only after that. From then on the host's flag is false until
  a \<^verbatim>\<open>beforeReward\<close> hook fires.
\<close>

theorem initialize_clears_flag_first:
  assumes "\<not> initializeCalled s"
  shows "fst (initialize ctx s) = Inr () \<and>
     effects (snd (initialize ctx s))
       = effects s @ [SetCanShowRewardedAd False, CreateElement ''script'',
                      AppendChild (scriptTag_of s ctx)] \<and>
     documentHead (snd (initialize ctx s)) = documentHead s @ [scriptTag_of s ctx] \<and>
     initState (snd (initialize ctx s)) = InitAwaitingScript \<and>
     ((\<forall>e\<in>set es. \<not> is_VendorBeforeReward e) \<longrightarrow>
        canShowRewardedAd (run (snd (initialize ctx s)) es) = Some False)"
proof -
  have c: "canShowRewardedAd (snd (initialize ctx s)) = Some False"
    using assms by (simp add: initialize_def Let_def host_defs)
  have "(\<forall>e\<in>set es. \<not> is_VendorBeforeReward e) \<longrightarrow>
        canShowRewardedAd (run (snd (initialize ctx s)) es) = Some False"
    using canShow_run [OF c] by blast
  then show ?thesis
    using assms by (simp add: initialize_def Let_def host_defs scriptTag_of_def)
qed

theorem initialize_clears_flag_first_witness:
  "\<not> initializeCalled example_plugin \<and>
   fst (initialize example_ctx example_plugin) = Inr () \<and>
   effects (snd (initialize example_ctx example_plugin))
     = [SetCanShowRewardedAd False, CreateElement ''script'',
        AppendChild (scriptTag_of example_plugin example_ctx)] \<and>
   canShowRewardedAd (run (snd (initialize example_ctx example_plugin))
       [ScriptLoad, Tick 300, VendorAdBreakDone 1 (info ''notReady''), LoopResume]) = Some False"
proof -
  have h: "\<not> initializeCalled example_plugin"
    by (simp add: example_defs)
  have e: "effects example_plugin = []"
    by (simp add: example_defs)
  show ?thesis
    using h e initialize_clears_flag_first [OF h, of example_ctx
        "[ScriptLoad, Tick 300, VendorAdBreakDone 1 (info ''notReady''), LoopResume]"]
    by (simp del: run_Cons run_Nil)
qed

text \<open>
  C10. A new instance keeps the queue it finds and starts an empty one only when there
  is none. \<^verbatim>\<open>adBreak\<close> and \<^verbatim>\<open>adConfig\<close> append their argument and do not depend on what
  the queue holds. Whatever events run, the queue is the one the instance started with,
  followed by the elements pushed, in the order of the pushes.
\<close>

theorem queue_is_append_only:
  "adsbygoogle (googleAdPlacementPlugin pid hint (page\<lparr>page_adsbygoogle := None\<rparr>)) = [] \<and>
   adsbygoogle (googleAdPlacementPlugin pid hint (page\<lparr>page_adsbygoogle := Some q\<rparr>))
     = map ForeignItem q \<and>
   adsbygoogle (adBreak item s) = adsbygoogle s @ [item] \<and>
   adsbygoogle (adConfig item s) = adsbygoogle s @ [item] \<and>
   adBreak item (s\<lparr>adsbygoogle := items\<rparr>) = (adBreak item s)\<lparr>adsbygoogle := items @ [item]\<rparr> \<and>
   adConfig item (s\<lparr>adsbygoogle := items\<rparr>) = (adConfig item s)\<lparr>adsbygoogle := items @ [item]\<rparr> \<and>
   take (length (adsbygoogle s)) (adsbygoogle (run s es)) = adsbygoogle s \<and>
   adsbygoogle (run (googleAdPlacementPlugin pid hint page) es)
     = adsbygoogle (googleAdPlacementPlugin pid hint page)
       @ pushed (effects (run (googleAdPlacementPlugin pid hint page) es))"
proof -
  obtain ys where ys: "adsbygoogle (run s es) = adsbygoogle s @ ys"
    using pushed_run [of s es] by blast
  obtain zs where zs:
    "adsbygoogle (run (googleAdPlacementPlugin pid hint page) es)
       = adsbygoogle (googleAdPlacementPlugin pid hint page) @ zs"
    "pushed (effects (run (googleAdPlacementPlugin pid hint page) es))
       = pushed (effects (googleAdPlacementPlugin pid hint page)) @ zs"
    using pushed_run [of "googleAdPlacementPlugin pid hint page" es] by blast
  have "effects (googleAdPlacementPlugin pid hint page) = []"
    by (simp add: googleAdPlacementPlugin_def)
  with zs have "adsbygoogle (run (googleAdPlacementPlugin pid hint page) es)
     = adsbygoogle (googleAdPlacementPlugin pid hint page)
       @ pushed (effects (run (googleAdPlacementPlugin pid hint page) es))"
    by simp
  then show ?thesis
    using ys by (simp add: googleAdPlacementPlugin_def adBreak_def adConfig_def)
qed

theorem queue_is_append_only_witness:
  "adsbygoogle (run (googleAdPlacementPlugin ''ca-pub-1'' None (example_page\<lparr>page_adsbygoogle := Some [7]\<rparr>))
      [HostInitialize example_ctx, ScriptLoad, HostShowFullScreenAd])
     = [ForeignItem 7, AdConfigOptions ''on'', AdBreakOptions Reward 0, AdBreakOptions Pause 1]"
proof -
  have "pushed (effects (run (googleAdPlacementPlugin ''ca-pub-1'' None (example_page\<lparr>page_adsbygoogle := Some [7]\<rparr>))
      [HostInitialize example_ctx, ScriptLoad, HostShowFullScreenAd]))
    = [AdConfigOptions ''on'', AdBreakOptions Reward 0, AdBreakOptions Pause 1]"
    by (simp add: example_defs host_defs op_defs Let_def)
  then show ?thesis
    using queue_is_append_only [where pid = "''ca-pub-1''" and hint = None
        and page = "example_page\<lparr>page_adsbygoogle := Some [7]\<rparr>" and q = "[7]"
        and es = "[HostInitialize example_ctx, ScriptLoad, HostShowFullScreenAd]"]
    by (simp del: run_Cons run_Nil)
qed

section \<open>The offer and its trigger\<close>

text \<open>
  C2. The claimed invariant: \<^verbatim>\<open>showRewardedAdFn\<close> is set exactly when the value last passed
  to \<^verbatim>\<open>setCanShowRewardedAd\<close> is true. It is evaluated here after an offer has been
  made and \<^verbatim>\<open>showRewardedAd\<close> has been called once: the closure of lines 133 to 141 has
  passed false to the host and has not cleared \<^verbatim>\<open>showRewardedAdFn\<close>, which only line 158
  does, after \<^verbatim>\<open>adBreakDone\<close>.
\<close>

theorem trigger_outlives_offer:
  "showRewardedAdFn (run example_plugin
      [HostInitialize example_ctx, ScriptLoad, VendorBeforeReward 1, HostShowRewardedAd]) = Some 1 \<and>
   canShowRewardedAd (run example_plugin
      [HostInitialize example_ctx, ScriptLoad, VendorBeforeReward 1, HostShowRewardedAd]) = Some False"
  by (simp add: example_defs host_defs op_defs Let_def)

text \<open>
  C4. One offer, \<^verbatim>\<open>showRewardedAd\<close> called twice before \<^verbatim>\<open>adBreakDone\<close>: the vendor's
  \<^verbatim>\<open>showAdFn\<close> of request 1 is called twice within the one Requesting attempt, which is
  still outstanding, and the second call gets a new promise while the resolver of the
  first is overwritten.
\<close>

theorem trigger_used_twice:
  "filter is_ShowAdFn (effects (run example_plugin
      [HostInitialize example_ctx, ScriptLoad, VendorBeforeReward 1, HostShowRewardedAd,
       HostShowRewardedAd])) = [ShowAdFn 1, ShowAdFn 1] \<and>
   attempts (run example_plugin
      [HostInitialize example_ctx, ScriptLoad, VendorBeforeReward 1, HostShowRewardedAd,
       HostShowRewardedAd]) = [0] \<and>
   outstanding (run example_plugin
      [HostInitialize example_ctx, ScriptLoad, VendorBeforeReward 1, HostShowRewardedAd,
       HostShowRewardedAd]) = [0] \<and>
   fst (showRewardedAd (run example_plugin
      [HostInitialize example_ctx, ScriptLoad, VendorBeforeReward 1, HostShowRewardedAd]))
     = Inr (Awaiting 2)"
  by (simp add: example_defs host_defs op_defs Let_def attempts_def outstanding_def)

lemma trigger_order:
  assumes "showRewardedAdFn s = Some i"
  shows "effects (snd (showRewardedAd s)) = effects s @ [SetCanShowRewardedAd False, ShowAdFn i] \<and>
    canShowRewardedAd (snd (showRewardedAd s)) = Some False \<and>
    fst (showRewardedAd s) = Inr (Awaiting (length (promises s))) \<and>
    resolveRewardedAdFn (snd (showRewardedAd s)) = Some (length (promises s)) \<and>
    showRewardedAdFn (snd (showRewardedAd s)) = Some i"
  using assms by (simp add: showRewardedAd_def showRewardedAdFn_call_def newPromise_def host_defs Let_def)

text \<open>
  What the guard of \<^verbatim>\<open>showRewardedAd\<close> gives: when \<^verbatim>\<open>showRewardedAdFn\<close> is null, the call
  returns \<^verbatim>\<open>{didShowAd: false, errorReason: "no-ad-available"}\<close>, raises nothing and
  changes nothing; and as long as no \<^verbatim>\<open>beforeReward\<close> hook fires \<^verbatim>\<open>showRewardedAdFn\<close> stays
  null and the host's flag does not become true.
\<close>

lemma showRewardedAd_without_trigger:
  assumes "showRewardedAdFn s = None" and "\<forall>e\<in>set es. \<not> is_VendorBeforeReward e"
  shows "showRewardedAd (run s es)
      = (Inr (Fulfilled \<lparr>didShowAd = False, errorReason = Some ''no-ad-available''\<rparr>), run s es) \<and>
     (canShowRewardedAd s \<noteq> Some True \<longrightarrow> canShowRewardedAd (run s es) \<noteq> Some True)"
proof -
  have "showRewardedAdFn (run s es) = None"
    using assms by (rule trigger_run)
  then have "showRewardedAd (run s es)
      = (Inr (Fulfilled \<lparr>didShowAd = False, errorReason = Some ''no-ad-available''\<rparr>), run s es)"
    by (simp add: showRewardedAd_def)
  moreover have "canShowRewardedAd (run s es) \<noteq> Some True" if "canShowRewardedAd s \<noteq> Some True"
    using that assms(2) by (rule not_offered_run)
  ultimately show ?thesis by simp
qed

lemma context_step:
  assumes "initializeCalled s \<and> initializeContext s = Some c"
  shows "initializeCalled (step s e) \<and> initializeContext (step s e) = Some c"
  using assms
  by (cases e) (auto simp: host_defs op_defs Let_def
      split: option.splits QueueItem.splits AdBreakType.splits LoopState.splits)

lemma context_run:
  assumes "initializeCalled s \<and> initializeContext s = Some c"
  shows "initializeCalled (run s es) \<and> initializeContext (run s es) = Some c"
  using assms
proof (induction es arbitrary: s)
  case Nil
  then show ?case by simp
next
  case (Cons e es)
  have "initializeCalled (step s e) \<and> initializeContext (step s e) = Some c"
    by (rule context_step) (rule Cons.prems)
  then show ?case using Cons.IH [of "step s e"] by simp
qed

section \<open>Misuse\<close>

text \<open>
  C8, as stated, fails for \<^verbatim>\<open>showRewardedAd\<close>: called on a new instance, before
  \<^verbatim>\<open>initialize\<close>, it raises nothing and returns the soft result.
\<close>

theorem showRewardedAd_before_initialize_is_soft:
  "\<not> initializeCalled example_plugin \<and>
   initializeContext example_plugin = None \<and>
   showRewardedAd example_plugin
     = (Inr (Fulfilled \<lparr>didShowAd = False, errorReason = Some ''no-ad-available''\<rparr>),
        example_plugin) \<and>
   fst (showRewardedAd example_plugin) \<noteq> Inl NotInitialized \<and>
   fst (showRewardedAd example_plugin) \<noteq> Inl AlreadyInitialized"
  by (simp add: example_defs showRewardedAd_def)

text \<open>
  C8, amended. Let \<open>t\<close> be any state reached without a call of \<^verbatim>\<open>initialize\<close>. There the
  hooks \<^verbatim>\<open>beforeAd\<close> and \<^verbatim>\<open>afterAd\<close> raise "Plugin is not initialized" to the vendor that
  calls them, and change nothing. The host-facing operations do not raise:
  \<^verbatim>\<open>showRewardedAd\<close> returns the soft result and changes nothing, and \<^verbatim>\<open>showFullScreenAd\<close>
  creates its promise, pushes its request onto the queue and waits. A script load event
  runs nothing, so \<^verbatim>\<open>rewardedLoop\<close> is not entered. The first \<^verbatim>\<open>initialize\<close> does not raise;
  in every state \<open>u\<close> reached after it, another \<^verbatim>\<open>initialize\<close> raises at once and changes
  nothing, and the context is stored, so the check at the entry of \<^verbatim>\<open>rewardedLoop\<close>, which
  is called without \<^verbatim>\<open>await\<close> after the script has loaded, passes.
\<close>

theorem misuse_errors:
  assumes "t = run (googleAdPlacementPlugin pid hint page) es"
    and "\<forall>e\<in>set es. \<not> is_HostInitialize e"
    and "u = run (snd (initialize ctx t)) es'"
  shows "beforeAd t = (Inl NotInitialized, t) \<and>
     afterAd t = (Inl NotInitialized, t) \<and>
     showRewardedAd t
       = (Inr (Fulfilled \<lparr>didShowAd = False, errorReason = Some ''no-ad-available''\<rparr>), t) \<and>
     showFullScreenAd t
       = (Inr (Awaiting (length (promises t))),
          t\<lparr>promises := promises t @ [None],
            adsbygoogle := adsbygoogle t @ [AdBreakOptions Pause (length (promises t))],
            effects := effects t @ [Push (AdBreakOptions Pause (length (promises t)))]\<rparr>) \<and>
     step t ScriptLoad = t \<and>
     fst (initialize ctx t) = Inr () \<and>
     initialize ctx' u = (Inl AlreadyInitialized, u) \<and>
     initializeContext u = Some ctx \<and>
     fst (rewardedLoop (adConfig (AdConfigOptions ''on'') u)) = Inr ()"
proof -
  have p: "pre_init t"
    unfolding assms(1) using pre_init_new assms(2) by (rule pre_init_run)
  have before: "beforeAd t = (Inl NotInitialized, t) \<and> afterAd t = (Inl NotInitialized, t) \<and>
     showRewardedAd t
       = (Inr (Fulfilled \<lparr>didShowAd = False, errorReason = Some ''no-ad-available''\<rparr>), t) \<and>
     step t ScriptLoad = t \<and> fst (initialize ctx t) = Inr ()"
    using p by (simp add: pre_init_def beforeAd_def afterAd_def showRewardedAd_def initialize_def Let_def)
  have full: "showFullScreenAd t
       = (Inr (Awaiting (length (promises t))),
          t\<lparr>promises := promises t @ [None],
            adsbygoogle := adsbygoogle t @ [AdBreakOptions Pause (length (promises t))],
            effects := effects t @ [Push (AdBreakOptions Pause (length (promises t)))]\<rparr>)"
    by (simp add: showFullScreenAd_def newPromise_def adBreak_def)
  have "initializeCalled (snd (initialize ctx t)) \<and> initializeContext (snd (initialize ctx t)) = Some ctx"
    using p by (simp add: pre_init_def initialize_def Let_def host_defs)
  then have u: "initializeCalled u \<and> initializeContext u = Some ctx"
    unfolding assms(3) by (rule context_run)
  then have after: "initialize ctx' u = (Inl AlreadyInitialized, u) \<and>
     initializeContext u = Some ctx \<and>
     fst (rewardedLoop (adConfig (AdConfigOptions ''on'') u)) = Inr ()"
    by (simp add: initialize_def rewardedLoop_def adConfig_def)
  show ?thesis using before full after by simp
qed

theorem misuse_errors_witness:
  "beforeAd (run example_plugin [HostShowFullScreenAd, VendorBeforeAd 0, Tick 5])
     = (Inl NotInitialized, run example_plugin [HostShowFullScreenAd, VendorBeforeAd 0, Tick 5]) \<and>
   showRewardedAd (run example_plugin [HostShowFullScreenAd, VendorBeforeAd 0, Tick 5])
     = (Inr (Fulfilled \<lparr>didShowAd = False, errorReason = Some ''no-ad-available''\<rparr>),
        run example_plugin [HostShowFullScreenAd, VendorBeforeAd 0, Tick 5]) \<and>
   adsbygoogle (snd (showFullScreenAd example_plugin)) = [AdBreakOptions Pause 0] \<and>
   fst (showFullScreenAd example_plugin) = Inr (Awaiting 0) \<and>
   initialize example_ctx (run (snd (initialize example_ctx example_plugin)) [ScriptLoad])
     = (Inl AlreadyInitialized, run (snd (initialize example_ctx example_plugin)) [ScriptLoad]) \<and>
   initializeContext (run (snd (initialize example_ctx example_plugin)) [ScriptLoad])
     = Some example_ctx"
proof -
  have a: "run example_plugin [HostShowFullScreenAd, VendorBeforeAd 0, Tick 5]
      = run (googleAdPlacementPlugin ''ca-pub-1'' None example_page)
          [HostShowFullScreenAd, VendorBeforeAd 0, Tick 5]"
    by (simp only: example_plugin_def)
  have b: "example_plugin = run (googleAdPlacementPlugin ''ca-pub-1'' None example_page) []"
    by (simp add: example_plugin_def)
  have h1: "\<forall>e\<in>set [HostShowFullScreenAd, VendorBeforeAd 0, Tick 5]. \<not> is_HostInitialize e"
    by simp
  have h2: "\<forall>e\<in>set []. \<not> is_HostInitialize e"
    by simp
  have q: "promises example_plugin = []" "adsbygoogle example_plugin = []"
    by (simp_all add: example_defs)
  note A = misuse_errors [OF a h1 refl, where ctx = example_ctx and es' = "[]" and ctx' = example_ctx]
  note B = misuse_errors [OF b h2 refl, where ctx = example_ctx and es' = "[ScriptLoad]"
      and ctx' = example_ctx]
  have b1: "showFullScreenAd example_plugin
       = (Inr (Awaiting (length (promises example_plugin))),
          example_plugin\<lparr>promises := promises example_plugin @ [None],
            adsbygoogle := adsbygoogle example_plugin
               @ [AdBreakOptions Pause (length (promises example_plugin))],
            effects := effects example_plugin
               @ [Push (AdBreakOptions Pause (length (promises example_plugin)))]\<rparr>)"
    using B by blast
  have b2: "initialize example_ctx (run (snd (initialize example_ctx example_plugin)) [ScriptLoad])
     = (Inl AlreadyInitialized, run (snd (initialize example_ctx example_plugin)) [ScriptLoad]) \<and>
   initializeContext (run (snd (initialize example_ctx example_plugin)) [ScriptLoad])
     = Some example_ctx"
    using B by blast
  have a1: "beforeAd (run example_plugin [HostShowFullScreenAd, VendorBeforeAd 0, Tick 5])
     = (Inl NotInitialized, run example_plugin [HostShowFullScreenAd, VendorBeforeAd 0, Tick 5]) \<and>
   showRewardedAd (run example_plugin [HostShowFullScreenAd, VendorBeforeAd 0, Tick 5])
     = (Inr (Fulfilled \<lparr>didShowAd = False, errorReason = Some ''no-ad-available''\<rparr>),
        run example_plugin [HostShowFullScreenAd, VendorBeforeAd 0, Tick 5])"
    using A by blast
  show ?thesis
    using a1 b1 b2 q by (simp del: run_Cons run_Nil step.simps)
qed

section \<open>The loop after its promise has resolved\<close>

lemma reachable_inv: "plugin_inv (run (googleAdPlacementPlugin pid hint page) es)"
  by (rule inv_run) (rule inv_init)

lemma after_completion_fields [simp]:
  "showRewardedAdFn (after_completion result s) = None"
  "resolveRewardedAdFn (after_completion result s) = None"
  "canShowRewardedAd (after_completion result s) = Some False"
  "adsbygoogle (after_completion result s) = adsbygoogle s"
  "now (after_completion result s) = now s"
  "length (promises (after_completion result s)) = length (promises s)"
  "lastCallTime (after_completion result s) = lastCallTime s"
  "attempts (after_completion result s) = attempts s"
  by (simp_all add: after_completion_def setCanShowRewardedAd_def resolve_def attempts_def
      split: option.splits)

lemma after_completion_settled:
  "settled (after_completion result s) q =
     (if resolveRewardedAdFn s = Some q \<and> q < length (promises s) \<and> settled s q = None
      then Some result else settled s q)"
  by (auto simp: after_completion_def setCanShowRewardedAd_def settled_def promises_resolve
      promise_value_update split: option.splits)

lemma iteration_fields [simp]:
  "showRewardedAdFn (rewardedLoop_iteration s) = showRewardedAdFn s"
  "resolveRewardedAdFn (rewardedLoop_iteration s) = resolveRewardedAdFn s"
  "canShowRewardedAd (rewardedLoop_iteration s) = canShowRewardedAd s"
  "settled (rewardedLoop_iteration s) q = settled s q"
  "lastCallTime (rewardedLoop_iteration s) = now s"
  "loopState (rewardedLoop_iteration s) = LoopAwaiting (length (promises s))"
  "attempts (rewardedLoop_iteration s) = attempts s @ [length (promises s)]"
  by (simp_all add: rewardedLoop_iteration_def newPromise_def adBreak_def settled_def attempts_def)

lemma attempts_sleep [simp]: "attempts (s\<lparr>loopState := l, effects := es\<rparr>) = attempts s"
  by (simp add: attempts_def)

lemma resume_fields:
  "showRewardedAdFn (rewardedLoop_resume result s) = None"
  "resolveRewardedAdFn (rewardedLoop_resume result s) = None"
  "canShowRewardedAd (rewardedLoop_resume result s) = Some False"
  "settled (rewardedLoop_resume result s) q = settled (after_completion result s) q"
  by (simp_all add: rewardedLoop_resume_eq Let_def)
    (simp add: settled_def)

lemma outstanding_le_one:
  assumes "plugin_inv s"
  shows "length (outstanding s) \<le> 1"
proof (cases "loopState s")
  case LoopNotStarted
  with assms show ?thesis by (simp add: plugin_inv_def loop_inv_def outstanding_def)
next
  case (LoopAwaiting p)
  with assms have ne: "attempts s \<noteq> []" and l: "last (attempts s) = p"
    and b: "list_all (\<lambda>q. settled s q \<noteq> None) (butlast (attempts s))"
    by (simp_all add: plugin_inv_def loop_inv_def)
  have a: "attempts s = butlast (attempts s) @ [p]"
    using ne l by (metis append_butlast_last_id)
  have "filter (\<lambda>q. settled s q = None) (butlast (attempts s)) = []"
    using b by (auto simp: list_all_iff filter_empty_conv)
  then have "outstanding s = filter (\<lambda>q. settled s q = None) [p]"
    unfolding outstanding_def by (subst a) simp
  then show ?thesis by simp
next
  case (LoopSleeping timeLeft)
  with assms have "list_all (\<lambda>q. settled s q \<noteq> None) (attempts s)"
    by (simp add: plugin_inv_def loop_inv_def)
  then have "outstanding s = []"
    by (auto simp: outstanding_def list_all_iff filter_empty_conv)
  then show ?thesis by simp
qed

lemma outstanding_Nil: "list_all (\<lambda>q. settled s q \<noteq> None) (attempts s) \<Longrightarrow> outstanding s = []"
  by (auto simp: outstanding_def list_all_iff filter_empty_conv)

lemma awaiting_promise_allocated:
  assumes "plugin_inv s" "loopState s = LoopAwaiting p"
  shows "p < length (promises s)" "p \<in> set (queue_promises s)"
proof -
  from assms have ne: "attempts s \<noteq> []" and l: "last (attempts s) = p"
    by (simp_all add: plugin_inv_def loop_inv_def)
  then have "p \<in> set (attempts s)" using last_in_set by blast
  then show q: "p \<in> set (queue_promises s)"
    using promise_of_reward by (fastforce simp: attempts_def queue_promises_def)
  from assms(1) have "list_all (\<lambda>p. p < length (promises s)) (queue_promises s)"
    by (simp add: plugin_inv_def store_inv_def)
  with q show "p < length (promises s)" by (simp add: list_all_iff)
qed

lemma resolver_pending:
  assumes "plugin_inv s" "resolveRewardedAdFn s = Some r"
  shows "r < length (promises s)" "settled s r = None" "r \<notin> set (queue_promises s)"
  using assms by (simp_all add: plugin_inv_def store_inv_def)

lemma now_resolve [simp]: "now (resolve p v s) = now s"
  by (simp add: resolve_def)

lemma done_then_resume:
  assumes i: "plugin_inv s" and l: "loopState s = LoopAwaiting p"
    and it: "item_at s i = Some (AdBreakOptions ty p)" and pend: "settled s p = None"
  shows "run s [VendorAdBreakDone i v, Tick d, LoopResume]
           = rewardedLoop_resume v ((resolve p v s)\<lparr>now := now s + max 0 d\<rparr>)"
    and "settled (resolve p v s) p = Some v"
proof -
  have lt: "p < length (promises s)" by (rule awaiting_promise_allocated [OF i l])
  show s: "settled (resolve p v s) p = Some v"
    using lt pend by (simp add: settled_def promises_resolve promise_value_update)
  have "settled ((resolve p v s)\<lparr>now := now s + max 0 d\<rparr>) p = Some v"
    using s by (simp add: settled_def)
  then show "run s [VendorAdBreakDone i v, Tick d, LoopResume]
           = rewardedLoop_resume v ((resolve p v s)\<lparr>now := now s + max 0 d\<rparr>)"
    using it l by simp
qed

section \<open>Completion of a request\<close>

text \<open>
  C3. In any reachable state in which the loop waits for the request at queue index
  \<open>i\<close>, let \<^verbatim>\<open>adBreakDone\<close> of that request fire and the loop continue. Then
  \<^verbatim>\<open>showRewardedAdFn\<close> and \<^verbatim>\<open>resolveRewardedAdFn\<close> are null and the host's flag is false,
  whether or not an offer was made or used; and if a resolver was stored, its promise
  was pending and is now resolved with this placement info, so that the
  \<^verbatim>\<open>showRewardedAd\<close> call waiting for it returns its translation, which for "viewed" is
  \<^verbatim>\<open>{didShowAd: true, errorReason: null}\<close>.
\<close>

theorem completion_resolves_and_closes:
  assumes "s = run (googleAdPlacementPlugin pid hint page) es"
    and "loopState s = LoopAwaiting p"
    and "item_at s i = Some (AdBreakOptions Reward p)"
    and "settled s p = None"
    and "t = run s [VendorAdBreakDone i placementInfo, Tick d, LoopResume]"
  shows "showRewardedAdFn t = None \<and> resolveRewardedAdFn t = None \<and>
     canShowRewardedAd t = Some False \<and>
     (\<forall>r. resolveRewardedAdFn s = Some r \<longrightarrow>
        settled s r = None \<and> settled t r = Some placementInfo \<and>
        outcome_result (Awaiting r) t = Some (placementInfoToAdLadResult placementInfo)) \<and>
     (breakStatus placementInfo = ''viewed'' \<longrightarrow>
        (\<forall>r. resolveRewardedAdFn s = Some r \<longrightarrow>
           outcome_result (Awaiting r) t = Some \<lparr>didShowAd = True, errorReason = None\<rparr>))"
proof -
  let ?s1 = "(resolve p placementInfo s)\<lparr>now := now s + max 0 d\<rparr>"
  have i: "plugin_inv s" unfolding assms(1) by (rule reachable_inv)
  have t: "t = rewardedLoop_resume placementInfo ?s1"
    unfolding assms(5) by (rule done_then_resume(1) [OF i assms(2) assms(3) assms(4)])
  have closed: "showRewardedAdFn t = None \<and> resolveRewardedAdFn t = None \<and>
     canShowRewardedAd t = Some False"
    by (simp add: t resume_fields)
  have res: "settled s r = None \<and> settled t r = Some placementInfo \<and>
        outcome_result (Awaiting r) t = Some (placementInfoToAdLadResult placementInfo)"
    if r: "resolveRewardedAdFn s = Some r" for r
  proof -
    note rp = resolver_pending [OF i r]
    have "p \<in> set (queue_promises s)" by (rule awaiting_promise_allocated [OF i assms(2)])
    with rp(3) have ne: "r \<noteq> p" by auto
    have "settled ?s1 r = None"
      using rp(2) ne by (simp add: settled_def promises_resolve promise_value_update)
    moreover have "resolveRewardedAdFn ?s1 = Some r" "r < length (promises ?s1)"
      using r rp(1) by simp_all
    ultimately have "settled t r = Some placementInfo"
      by (simp add: t resume_fields after_completion_settled)
    then show ?thesis using rp(2) by (simp add: outcome_result_def)
  qed
  have viewed: "placementInfoToAdLadResult placementInfo = \<lparr>didShowAd = True, errorReason = None\<rparr>"
    if "breakStatus placementInfo = ''viewed''"
    using that by (simp add: placementInfoToAdLadResult_def)
  show ?thesis using closed res viewed by simp
qed

lemma offered_and_triggered_eq:
  "offered_and_triggered =
     \<lparr>publisherId = ''ca-pub-1'', adFrequencyHint = None, initializeCalled = True,
      initializeContext = Some \<lparr>useTestAds = False\<rparr>, showRewardedAdFn = Some 1,
      resolveRewardedAdFn = Some 1, lastCallTime = 0, initState = InitResolved,
      loopState = LoopAwaiting 0,
      adsbygoogle = [AdConfigOptions ''on'', AdBreakOptions Reward 0],
      documentHead = [scriptTag_of example_plugin example_ctx],
      promises = [None, None], now = 0, needsPause = None, needsMute = None,
      canShowRewardedAd = Some False,
      effects = [SetCanShowRewardedAd False, CreateElement ''script'',
        AppendChild (scriptTag_of example_plugin example_ctx), Push (AdConfigOptions ''on''),
        Push (AdBreakOptions Reward 0), SetCanShowRewardedAd True, SetCanShowRewardedAd False,
        ShowAdFn 1]\<rparr>"
  by (simp add: offered_and_triggered_def example_defs host_defs op_defs Let_def)

theorem completion_resolves_and_closes_witness:
  "loopState offered_and_triggered = LoopAwaiting 0 \<and>
   item_at offered_and_triggered 1 = Some (AdBreakOptions Reward 0) \<and>
   settled offered_and_triggered 0 = None \<and>
   resolveRewardedAdFn offered_and_triggered = Some 1 \<and>
   showRewardedAdFn (run offered_and_triggered [VendorAdBreakDone 1 (info ''viewed''), Tick 5, LoopResume]) = None \<and>
   canShowRewardedAd (run offered_and_triggered [VendorAdBreakDone 1 (info ''viewed''), Tick 5, LoopResume])
     = Some False \<and>
   outcome_result (Awaiting 1)
      (run offered_and_triggered [VendorAdBreakDone 1 (info ''viewed''), Tick 5, LoopResume])
     = Some \<lparr>didShowAd = True, errorReason = None\<rparr>"
proof -
  have r: "offered_and_triggered = run (googleAdPlacementPlugin ''ca-pub-1'' None example_page)
      [HostInitialize example_ctx, ScriptLoad, VendorBeforeReward 1, HostShowRewardedAd]"
    by (simp only: offered_and_triggered_def example_plugin_def)
  have l: "loopState offered_and_triggered = LoopAwaiting 0"
    by (simp add: offered_and_triggered_eq)
  have it: "item_at offered_and_triggered 1 = Some (AdBreakOptions Reward 0)"
    by (simp add: offered_and_triggered_eq item_at_def)
  have p: "settled offered_and_triggered 0 = None"
    by (simp add: offered_and_triggered_eq settled_def promise_value_def)
  have f: "resolveRewardedAdFn offered_and_triggered = Some 1"
    by (simp add: offered_and_triggered_eq)
  have v: "breakStatus (info ''viewed'') = ''viewed''"
    by (simp add: info_def)
  have tr: "placementInfoToAdLadResult (info ''viewed'') = \<lparr>didShowAd = True, errorReason = None\<rparr>"
    by (simp add: info_def placementInfoToAdLadResult_def)
  show ?thesis
    using l it p f v tr completion_resolves_and_closes [OF r l it p refl, of "info ''viewed''" 5]
    by (simp del: run_Cons run_Nil)
qed

section \<open>The soft result\<close>

text \<open>
  C5. The claim: whenever the host's flag is false, \<^verbatim>\<open>showRewardedAd\<close> returns the soft
  result. It is evaluated here after an offer has been made and used once, while the
  request is still outstanding: the flag is false, but \<^verbatim>\<open>showRewardedAdFn\<close> is still set,
  so the test of line 231 passes, the closure runs again, calls the vendor's \<^verbatim>\<open>showAdFn\<close>
  a second time, replaces the stored resolver and returns a pending promise.
\<close>

theorem flag_false_without_soft_result:
  "canShowRewardedAd offered_and_triggered = Some False \<and>
   showRewardedAdFn offered_and_triggered = Some 1 \<and>
   outstanding offered_and_triggered = [0] \<and>
   fst (showRewardedAd offered_and_triggered) = Inr (Awaiting 2) \<and>
   effects (snd (showRewardedAd offered_and_triggered))
     = effects offered_and_triggered @ [SetCanShowRewardedAd False, ShowAdFn 1] \<and>
   resolveRewardedAdFn offered_and_triggered = Some 1 \<and>
   resolveRewardedAdFn (snd (showRewardedAd offered_and_triggered)) = Some 2"
proof -
  have f: "showRewardedAdFn offered_and_triggered = Some 1"
    "canShowRewardedAd offered_and_triggered = Some False"
    "length (promises offered_and_triggered) = 2"
    "resolveRewardedAdFn offered_and_triggered = Some 1"
    "outstanding offered_and_triggered = [0]"
    by (simp_all add: offered_and_triggered_eq outstanding_def attempts_def settled_def
        promise_value_def)
  show ?thesis
    using f trigger_order [OF f(1)] by simp
qed

section \<open>Cooldown and the single outstanding request\<close>

lemma new_attempt_cases:
  assumes "attempts (step s e) \<noteq> attempts s"
  shows "(e = ScriptLoad \<and> initState s = InitAwaitingScript) \<or>
         (e = LoopResume \<and> (\<exists>p. loopState s = LoopAwaiting p \<and> settled s p \<noteq> None \<and>
              lastCallTime s + REWARDED_LOOP_RETRY_TIMEOUT \<le> now s)) \<or>
         (e = TimerFire \<and> loop_sleeping s)"
proof (cases e)
  case LoopResume
  with assms show ?thesis
    by (auto simp: rewardedLoop_resume_eq Let_def split: LoopState.splits option.splits if_splits)
next
  case TimerFire
  with assms show ?thesis
    by (auto simp: loop_sleeping_def split: LoopState.splits if_splits)
qed (use assms in \<open>auto simp: attempts_def host_defs op_defs Let_def
      split: option.splits QueueItem.splits AdBreakType.splits LoopState.splits if_splits\<close>)

lemma new_attempt_time:
  assumes "attempts (step s e) \<noteq> attempts s"
  shows "lastCallTime (step s e) = now s"
proof (cases e)
  case LoopResume
  with assms show ?thesis
    by (auto simp: rewardedLoop_resume_eq Let_def split: LoopState.splits option.splits if_splits)
next
  case TimerFire
  with assms show ?thesis
    by (auto split: LoopState.splits if_splits)
qed (use assms in \<open>auto simp: attempts_def host_defs op_defs Let_def
      split: option.splits QueueItem.splits AdBreakType.splits LoopState.splits if_splits\<close>)

lemma same_attempt_time:
  assumes "attempts (step s e) = attempts s"
  shows "lastCallTime (step s e) = lastCallTime s"
proof (cases e)
  case LoopResume
  with assms show ?thesis
    by (auto simp: rewardedLoop_resume_eq Let_def split: LoopState.splits option.splits if_splits)
next
  case TimerFire
  with assms show ?thesis
    by (auto split: LoopState.splits if_splits)
qed (use assms in \<open>auto simp: attempts_def host_defs op_defs Let_def
      split: option.splits QueueItem.splits AdBreakType.splits LoopState.splits if_splits\<close>)

lemma new_attempt_allowed:
  assumes i: "plugin_inv s" and a: "attempts (step s e) \<noteq> attempts s"
  shows "outstanding s = [] \<and>
         (e = ScriptLoad \<and> attempts s = [] \<or>
          e = TimerFire \<and> loop_sleeping s \<or>
          e = LoopResume \<and> lastCallTime s + REWARDED_LOOP_RETRY_TIMEOUT \<le> now s)"
proof -
  from new_attempt_cases [OF a] consider
      (load) "e = ScriptLoad" "initState s = InitAwaitingScript"
    | (resume) p where "e = LoopResume" "loopState s = LoopAwaiting p" "settled s p \<noteq> None"
        "lastCallTime s + REWARDED_LOOP_RETRY_TIMEOUT \<le> now s"
    | (timer) "e = TimerFire" "loop_sleeping s"
    by blast
  then show ?thesis
  proof cases
    case load
    with i have "attempts s = []"
      by (auto simp: plugin_inv_def loop_inv_def split: LoopState.splits)
    with load show ?thesis by (simp add: outstanding_def)
  next
    case resume
    have "outstanding s = []"
      by (rule outstanding_Nil) (rule all_settled [OF i resume(2) resume(3)])
    with resume show ?thesis by simp
  next
    case timer
    with i have "list_all (\<lambda>q. settled s q \<noteq> None) (attempts s)"
      by (auto simp: plugin_inv_def loop_inv_def loop_sleeping_def split: LoopState.splits)
    with timer show ?thesis by (simp add: outstanding_Nil)
  qed
qed

lemma timer_after_sleep:
  assumes "loopState t = LoopSleeping timeLeft"
  shows "run t [Tick d2, TimerFire] = rewardedLoop_iteration (t\<lparr>now := now t + max 0 d2\<rparr>)"
  using assms by simp

lemma effects_resolve [simp]: "effects (resolve p v s) = effects s"
  by (simp add: resolve_def)

lemma effects_after_completion:
  "effects (after_completion result s) = effects s @ [SetCanShowRewardedAd False]"
  by (simp add: after_completion_def setCanShowRewardedAd_def split: option.splits)

lemma attempts_now [simp]: "attempts (s\<lparr>now := n\<rparr>) = attempts s"
  by (simp add: attempts_def)

lemma sleep_then_timer:
  assumes "\<not> REWARDED_LOOP_RETRY_TIMEOUT - (now u - lastCallTime u) \<le> 0"
    and "t = rewardedLoop_resume result u"
  shows "attempts t = attempts u"
    and "loopState t = LoopSleeping (REWARDED_LOOP_RETRY_TIMEOUT - (now u - lastCallTime u))"
    and "effects t = effects u @ [SetCanShowRewardedAd False,
            SetTimeout (REWARDED_LOOP_RETRY_TIMEOUT - (now u - lastCallTime u))]"
    and "attempts (run t [Tick dd, TimerFire]) = attempts u @ [length (promises u)]"
    and "lastCallTime (run t [Tick dd, TimerFire]) = now u + max 0 dd"
proof -
  let ?tl = "REWARDED_LOOP_RETRY_TIMEOUT - (now u - lastCallTime u)"
  let ?s4 = "after_completion result u"
  have t: "t = ?s4\<lparr>loopState := LoopSleeping ?tl, effects := effects ?s4 @ [SetTimeout ?tl]\<rparr>"
    using assms by (simp add: rewardedLoop_resume_eq Let_def)
  show "attempts t = attempts u" by (simp add: t)
  show l: "loopState t = LoopSleeping ?tl" by (simp add: t)
  show "effects t = effects u @ [SetCanShowRewardedAd False, SetTimeout ?tl]"
    by (simp add: t effects_after_completion)
  have r: "run t [Tick dd, TimerFire] = rewardedLoop_iteration (t\<lparr>now := now t + max 0 dd\<rparr>)"
    using l by (rule timer_after_sleep)
  have n: "now t = now u" "length (promises t) = length (promises u)" "attempts t = attempts u"
    by (simp_all add: t)
  show "attempts (run t [Tick dd, TimerFire]) = attempts u @ [length (promises u)]"
    unfolding r using n by simp
  show "lastCallTime (run t [Tick dd, TimerFire]) = now u + max 0 dd"
    unfolding r using n by simp
qed

lemma resume_at_once:
  assumes "REWARDED_LOOP_RETRY_TIMEOUT - (now u - lastCallTime u) \<le> 0"
    and "t = rewardedLoop_resume result u"
  shows "attempts t = attempts u @ [length (promises u)]" and "lastCallTime t = now u"
  using assms by (simp_all add: rewardedLoop_resume_eq Let_def)

text \<open>A state of the example instance, computed.\<close>

lemma requesting_300_eq:
  "requesting_300 =
     \<lparr>publisherId = ''ca-pub-1'', adFrequencyHint = None, initializeCalled = True,
      initializeContext = Some \<lparr>useTestAds = False\<rparr>, showRewardedAdFn = None,
      resolveRewardedAdFn = None, lastCallTime = 0, initState = InitResolved,
      loopState = LoopAwaiting 0,
      adsbygoogle = [AdConfigOptions ''on'', AdBreakOptions Reward 0],
      documentHead = [scriptTag_of example_plugin example_ctx],
      promises = [None], now = 300, needsPause = None, needsMute = None,
      canShowRewardedAd = Some False,
      effects = [SetCanShowRewardedAd False, CreateElement ''script'',
        AppendChild (scriptTag_of example_plugin example_ctx), Push (AdConfigOptions ''on''),
        Push (AdBreakOptions Reward 0)]\<rparr>"
  by (simp add: requesting_300_def example_defs host_defs op_defs Let_def)

lemma run_append: "run s (xs @ ys) = run (run s xs) ys"
  by (simp add: run_def)

lemma sleeping_700_run:
  "sleeping_700 = run requesting_300 [VendorAdBreakDone 1 (info ''frequencyCapped''), Tick 0, LoopResume]"
proof -
  have "[HostInitialize example_ctx, ScriptLoad, Tick 300,
     VendorAdBreakDone 1 (info ''frequencyCapped''), Tick 0, LoopResume]
    = [HostInitialize example_ctx, ScriptLoad, Tick 300]
      @ [VendorAdBreakDone 1 (info ''frequencyCapped''), Tick 0, LoopResume]"
    by simp
  then show ?thesis
    unfolding sleeping_700_def requesting_300_def by (simp only: run_append)
qed

lemma requesting_300_facts:
  "loopState requesting_300 = LoopAwaiting 0"
  "item_at requesting_300 1 = Some (AdBreakOptions Reward 0)"
  "settled requesting_300 0 = None"
  "now requesting_300 = 300"
  "lastCallTime requesting_300 = 0"
  "attempts requesting_300 = [0]"
  "length (promises requesting_300) = 1"
  by (simp_all add: requesting_300_eq item_at_def settled_def promise_value_def attempts_def)

lemma sleeping_700_attempt:
  "attempts (step sleeping_700 TimerFire) \<noteq> attempts sleeping_700"
  unfolding sleeping_700_run requesting_300_eq
  by (simp add: host_defs op_defs Let_def settled_def promise_value_def attempts_def
      REWARDED_LOOP_RETRY_TIMEOUT_def)

text \<open>
  C6, as stated, fails. An attempt starts at time 0 and its \<^verbatim>\<open>adBreakDone\<close> fires at 300, so
  the loop sets a timer of 700 ms. Nothing in the loop looks at the clock again when the
  timer's callback runs: here it runs after 699.818 ms, and the next attempt starts at
  999.818, before 1000.
\<close>

theorem timer_may_run_early:
  "lastCallTime requesting_300 = 0 \<and>
   now requesting_300 = 300 \<and>
   outstanding requesting_300 = [0] \<and>
   attempts early_timer = [0, 1] \<and>
   lastCallTime early_timer = 999.818 \<and>
   lastCallTime early_timer < lastCallTime requesting_300 + 1000"
proof -
  have a: "lastCallTime requesting_300 = 0" "now requesting_300 = 300"
    "outstanding requesting_300 = [0]"
    by (simp_all add: requesting_300_eq outstanding_def attempts_def settled_def promise_value_def)
  have b: "attempts early_timer = [0, 1]" "lastCallTime early_timer = 999.818"
    unfolding early_timer_def requesting_300_eq
    by (simp_all add: host_defs op_defs Let_def settled_def promise_value_def attempts_def
        REWARDED_LOOP_RETRY_TIMEOUT_def)
  show ?thesis using a b by simp
qed

text \<open>
  C6, amended. The timeout is 1000 ms. In every reachable state at most one Requesting
  attempt is outstanding. An event starts a new attempt only when none is outstanding,
  and it is the script load for the first attempt, the timer's callback while the loop
  sleeps, or the loop's continuation when at least 1000 ms have passed since the stored
  start; the new attempt stores the current time as its start, and no other event changes
  the stored start. When \<^verbatim>\<open>adBreakDone\<close> fires and the loop continues \<open>d\<close> ms later: if less
  than 1000 ms have passed since the start, it starts no attempt and sets a timer of
  exactly 1000 ms minus the time passed; the next attempt starts when the callback runs,
  \<open>d2\<close> ms later, whatever \<open>d2\<close> is, and no earlier than 1000 ms after the previous start
  if \<open>d2\<close> is at least the delay asked for. Otherwise it starts the next attempt in the
  same step.
\<close>

theorem cooldown_requested_and_single_request:
  assumes "s = run (googleAdPlacementPlugin pid hint page) es"
    and "t = run s [VendorAdBreakDone i placementInfo, Tick d, LoopResume]"
  shows "REWARDED_LOOP_RETRY_TIMEOUT = 1000 \<and>
     length (outstanding s) \<le> 1 \<and>
     (attempts (step s e) \<noteq> attempts s \<longrightarrow>
        outstanding s = [] \<and> lastCallTime (step s e) = now s \<and>
        (e = ScriptLoad \<and> attempts s = [] \<or>
         e = TimerFire \<and> loop_sleeping s \<or>
         e = LoopResume \<and> lastCallTime s + REWARDED_LOOP_RETRY_TIMEOUT \<le> now s)) \<and>
     (attempts (step s e) = attempts s \<longrightarrow> lastCallTime (step s e) = lastCallTime s) \<and>
     (loopState s = LoopAwaiting p \<and> item_at s i = Some (AdBreakOptions Reward p) \<and>
      settled s p = None \<longrightarrow>
        (now s + max 0 d - lastCallTime s < REWARDED_LOOP_RETRY_TIMEOUT \<longrightarrow>
           attempts t = attempts s \<and>
           loopState t
             = LoopSleeping (REWARDED_LOOP_RETRY_TIMEOUT - (now s + max 0 d - lastCallTime s)) \<and>
           effects t = effects s @ [SetCanShowRewardedAd False,
               SetTimeout (REWARDED_LOOP_RETRY_TIMEOUT - (now s + max 0 d - lastCallTime s))] \<and>
           attempts (run t [Tick d2, TimerFire]) = attempts s @ [length (promises s)] \<and>
           lastCallTime (run t [Tick d2, TimerFire]) = now s + max 0 d + max 0 d2 \<and>
           (REWARDED_LOOP_RETRY_TIMEOUT - (now s + max 0 d - lastCallTime s) \<le> d2 \<longrightarrow>
              lastCallTime s + REWARDED_LOOP_RETRY_TIMEOUT
                \<le> lastCallTime (run t [Tick d2, TimerFire]))) \<and>
        (REWARDED_LOOP_RETRY_TIMEOUT \<le> now s + max 0 d - lastCallTime s \<longrightarrow>
           attempts t = attempts s @ [length (promises s)] \<and>
           lastCallTime t = now s + max 0 d))"
proof -
  have i: "plugin_inv s" unfolding assms(1) by (rule reachable_inv)
  have a: "length (outstanding s) \<le> 1" by (rule outstanding_le_one [OF i])
  have b: "outstanding s = [] \<and> lastCallTime (step s e) = now s \<and>
        (e = ScriptLoad \<and> attempts s = [] \<or>
         e = TimerFire \<and> loop_sleeping s \<or>
         e = LoopResume \<and> lastCallTime s + REWARDED_LOOP_RETRY_TIMEOUT \<le> now s)"
    if "attempts (step s e) \<noteq> attempts s"
    using new_attempt_allowed [OF i that] new_attempt_time [OF that] by simp
  have c: "lastCallTime (step s e) = lastCallTime s" if "attempts (step s e) = attempts s"
    using that by (rule same_attempt_time)
  have d: "(now s + max 0 d - lastCallTime s < REWARDED_LOOP_RETRY_TIMEOUT \<longrightarrow>
           attempts t = attempts s \<and>
           loopState t
             = LoopSleeping (REWARDED_LOOP_RETRY_TIMEOUT - (now s + max 0 d - lastCallTime s)) \<and>
           effects t = effects s @ [SetCanShowRewardedAd False,
               SetTimeout (REWARDED_LOOP_RETRY_TIMEOUT - (now s + max 0 d - lastCallTime s))] \<and>
           attempts (run t [Tick d2, TimerFire]) = attempts s @ [length (promises s)] \<and>
           lastCallTime (run t [Tick d2, TimerFire]) = now s + max 0 d + max 0 d2 \<and>
           (REWARDED_LOOP_RETRY_TIMEOUT - (now s + max 0 d - lastCallTime s) \<le> d2 \<longrightarrow>
              lastCallTime s + REWARDED_LOOP_RETRY_TIMEOUT
                \<le> lastCallTime (run t [Tick d2, TimerFire]))) \<and>
        (REWARDED_LOOP_RETRY_TIMEOUT \<le> now s + max 0 d - lastCallTime s \<longrightarrow>
           attempts t = attempts s @ [length (promises s)] \<and>
           lastCallTime t = now s + max 0 d)"
    if l: "loopState s = LoopAwaiting p" and it: "item_at s i = Some (AdBreakOptions Reward p)"
      and pend: "settled s p = None"
  proof -
    let ?u = "(resolve p placementInfo s)\<lparr>now := now s + max 0 d\<rparr>"
    have t: "t = rewardedLoop_resume placementInfo ?u"
      unfolding assms(2) by (rule done_then_resume(1) [OF i l it pend])
    have q: "attempts ?u = attempts s" "lastCallTime ?u = lastCallTime s" "now ?u = now s + max 0 d"
      "length (promises ?u) = length (promises s)" "effects ?u = effects s"
      by (simp_all add: attempts_def)
    have early: ?thesis if lt: "now s + max 0 d - lastCallTime s < REWARDED_LOOP_RETRY_TIMEOUT"
    proof -
      have n: "\<not> REWARDED_LOOP_RETRY_TIMEOUT - (now ?u - lastCallTime ?u) \<le> 0"
        using lt q by simp
      note f = sleep_then_timer [OF n t]
      have g: "lastCallTime (run t [Tick d2, TimerFire]) = now s + max 0 d + max 0 d2"
        using f(5) [of d2] q by simp
      have "lastCallTime s + REWARDED_LOOP_RETRY_TIMEOUT \<le> lastCallTime (run t [Tick d2, TimerFire])"
        if "REWARDED_LOOP_RETRY_TIMEOUT - (now s + max 0 d - lastCallTime s) \<le> d2"
        using that g by simp
      then show ?thesis using f(1) f(2) f(3) f(4) [of d2] g q lt by simp
    qed
    have late: ?thesis if ge: "REWARDED_LOOP_RETRY_TIMEOUT \<le> now s + max 0 d - lastCallTime s"
    proof -
      have n: "REWARDED_LOOP_RETRY_TIMEOUT - (now ?u - lastCallTime ?u) \<le> 0"
        using ge q by simp
      note f = resume_at_once [OF n t]
      show ?thesis using f q ge by simp
    qed
    show ?thesis using early late by linarith
  qed
  have t0: "REWARDED_LOOP_RETRY_TIMEOUT = 1000"
    by (simp add: REWARDED_LOOP_RETRY_TIMEOUT_def)
  show ?thesis
    using t0 a b c d by (simp del: run_Cons run_Nil step.simps)
qed

theorem cooldown_requested_and_single_request_witness:
  "loopState requesting_300 = LoopAwaiting 0 \<and>
   item_at requesting_300 1 = Some (AdBreakOptions Reward 0) \<and>
   settled requesting_300 0 = None \<and>
   now requesting_300 - lastCallTime requesting_300 = 300 \<and>
   length (outstanding requesting_300) \<le> 1 \<and>
   lastCallTime (step requesting_300 (Tick 0)) = lastCallTime requesting_300 \<and>
   attempts sleeping_700 = attempts requesting_300 \<and>
   loopState sleeping_700 = LoopSleeping 700 \<and>
   effects sleeping_700 = effects requesting_300 @ [SetCanShowRewardedAd False, SetTimeout 700] \<and>
   lastCallTime (run sleeping_700 [Tick 700, TimerFire]) = 1000 \<and>
   lastCallTime requesting_300 + 1000 \<le> lastCallTime (run sleeping_700 [Tick 700, TimerFire]) \<and>
   attempts (step sleeping_700 TimerFire) \<noteq> attempts sleeping_700 \<and>
   outstanding sleeping_700 = [] \<and>
   loop_sleeping sleeping_700 \<and>
   attempts (run requesting_300 [VendorAdBreakDone 1 (info ''frequencyCapped''), Tick 700, LoopResume])
     = [0, 1] \<and>
   lastCallTime (run requesting_300 [VendorAdBreakDone 1 (info ''frequencyCapped''), Tick 700, LoopResume])
     = 1000"
proof -
  have r: "requesting_300 = run (googleAdPlacementPlugin ''ca-pub-1'' None example_page)
      [HostInitialize example_ctx, ScriptLoad, Tick 300]"
    by (simp only: requesting_300_def example_plugin_def)
  have c: "sleeping_700 = run (googleAdPlacementPlugin ''ca-pub-1'' None example_page)
      [HostInitialize example_ctx, ScriptLoad, Tick 300,
       VendorAdBreakDone 1 (info ''frequencyCapped''), Tick 0, LoopResume]"
    by (simp only: sleeping_700_def example_plugin_def)
  note h = requesting_300_facts
  note A = cooldown_requested_and_single_request [OF r sleeping_700_run,
      of "Tick 0" 0 700]
  note B = cooldown_requested_and_single_request [OF c refl, of TimerFire 0 0 0 "info ''viewed''" 0]
  note C = cooldown_requested_and_single_request [OF r refl, of "Tick 0" 0 1 700 "info ''frequencyCapped''" 0]
  have t: "REWARDED_LOOP_RETRY_TIMEOUT = 1000" using A by (rule conjunct1)
  have a1: "length (outstanding requesting_300) \<le> 1" using A by blast
  have same: "attempts (step requesting_300 (Tick 0)) = attempts requesting_300"
    by simp
  have a2: "lastCallTime (step requesting_300 (Tick 0)) = lastCallTime requesting_300"
    using A same by blast
  have lt: "now requesting_300 + max 0 0 - lastCallTime requesting_300 < REWARDED_LOOP_RETRY_TIMEOUT"
    using h t by simp
  have le: "REWARDED_LOOP_RETRY_TIMEOUT - (now requesting_300 + max 0 0 - lastCallTime requesting_300) \<le> 700"
    using h t by simp
  have a3: "attempts sleeping_700 = attempts requesting_300 \<and>
     loopState sleeping_700
       = LoopSleeping (REWARDED_LOOP_RETRY_TIMEOUT
           - (now requesting_300 + max 0 0 - lastCallTime requesting_300)) \<and>
     effects sleeping_700 = effects requesting_300 @ [SetCanShowRewardedAd False,
         SetTimeout (REWARDED_LOOP_RETRY_TIMEOUT
           - (now requesting_300 + max 0 0 - lastCallTime requesting_300))] \<and>
     lastCallTime (run sleeping_700 [Tick 700, TimerFire])
       = now requesting_300 + max 0 0 + max 0 700 \<and>
     lastCallTime requesting_300 + REWARDED_LOOP_RETRY_TIMEOUT
       \<le> lastCallTime (run sleeping_700 [Tick 700, TimerFire])"
    using A h(1) h(2) h(3) lt le by blast
  have b: "outstanding sleeping_700 = [] \<and> loop_sleeping sleeping_700"
    using B sleeping_700_attempt by blast
  have ge: "REWARDED_LOOP_RETRY_TIMEOUT \<le> now requesting_300 + max 0 700 - lastCallTime requesting_300"
    using h t by simp
  have c3: "attempts (run requesting_300 [VendorAdBreakDone 1 (info ''frequencyCapped''), Tick 700, LoopResume])
       = attempts requesting_300 @ [length (promises requesting_300)] \<and>
     lastCallTime (run requesting_300 [VendorAdBreakDone 1 (info ''frequencyCapped''), Tick 700, LoopResume])
       = now requesting_300 + max 0 700"
    using C h(1) h(2) h(3) ge by blast
  show ?thesis
    using h sleeping_700_attempt a1 a2 a3 b c3 t by (simp del: run_Cons run_Nil step.simps)
qed

end
